theory Spec2Isabelle
  imports Main
begin

section \<open>Data model (main.cpp, Models)\<close>

text \<open>
  The source counts and indexes with \<open>size_t\<close>. Every cursor it stores is the result of
  a \<open>%\<close> by a vector's size, and the only arithmetic on a cursor is \<open>+ 1\<close>, so no value
  ever exceeds the size of a vector and unsigned wrap-around cannot happen; the loop
  counter of \<open>playMultiple\<close> stays below its bound. \<open>size_t\<close> is therefore \<open>nat\<close>.
\<close>

record Song =
  title :: string
  artist :: string

record Playlist =
  songs :: "Song list"

definition addSong :: "Song \<Rightarrow> Playlist \<Rightarrow> Playlist" where
  "addSong song pl = pl\<lparr>songs := songs pl @ [song]\<rparr>"

text \<open>\<open>songs.erase(songs.begin() + index)\<close> drops one element and closes the gap.\<close>

definition removeSong :: "nat \<Rightarrow> Playlist \<Rightarrow> Playlist" where
  "removeSong index pl =
     (if index < length (songs pl)
      then pl\<lparr>songs := take index (songs pl) @ drop (Suc index) (songs pl)\<rparr>
      else pl)"

definition getSongs :: "Playlist \<Rightarrow> Song list" where
  "getSongs pl = songs pl"

definition size_Playlist :: "Playlist \<Rightarrow> nat" where
  "size_Playlist pl = length (songs pl)"

text \<open>
  An \<open>enum class\<close> has \<open>int\<close> underneath, and a value of it need not be one of its
  enumerators (\<open>static_cast<DeviceType>(3)\<close>); the \<open>default:\<close> branches of the two
  factories are there for such values. The last constructor of each type stands for all
  of them.
\<close>

datatype DeviceType = BLUETOOTH | WIRED | HEADPHONES | DeviceType_unnamed

datatype PlayStrategyType = SEQUENTIAL | RANDOM | CUSTOM_QUEUE | PlayStrategyType_unnamed

section \<open>Errors\<close>

text \<open>
  Every \<open>throw\<close> of the source is a \<open>runtime_error\<close> with a message.
  \<open>undefined_behaviour\<close> is not an exception: it marks a call through a pointer that is
  null or whose object has been destroyed, to which C++ gives no meaning.
\<close>

datatype error = runtime_error string | undefined_behaviour

type_synonym 'a result = "error + 'a"

abbreviation EmptyPlaylist :: error where
  "EmptyPlaylist \<equiv> runtime_error ''Playlist is empty''"

abbreviation EmptyQueue :: error where
  "EmptyQueue \<equiv> runtime_error ''Custom queue is empty''"

abbreviation IndexOutOfRange :: error where
  "IndexOutOfRange \<equiv> runtime_error ''Queue index out of range''"

abbreviation NotConfigured :: error where
  "NotConfigured \<equiv> runtime_error ''AudioEngine not configured''"

abbreviation DeviceCreationFailed :: error where
  "DeviceCreationFailed \<equiv> runtime_error ''Failed to create device''"

abbreviation InvalidStrategy :: error where
  "InvalidStrategy \<equiv> runtime_error ''Invalid strategy type''"

section \<open>Output devices\<close>

datatype IAudioOutputDevice =
  BluetoothSpeakerAdapter | WiredSpeakerAdapter | HeadphonesAdapter

text \<open>The line that \<open>playSound\<close> sends to \<open>cout\<close> through the adapter's API.\<close>

fun playSound :: "IAudioOutputDevice \<Rightarrow> Song \<Rightarrow> string" where
  "playSound BluetoothSpeakerAdapter song =
     ''[BluetoothSpeakerAPI] Playing data: '' @
       (''Bluetooth play: '' @ title song @ '' by '' @ artist song)"
| "playSound WiredSpeakerAdapter song =
     ''[WiredSpeakerAPI] Playing data: '' @
       (''Wired play: '' @ title song @ '' by '' @ artist song)"
| "playSound HeadphonesAdapter song =
     ''[HeadphonesAPI] Playing data: '' @
       (''Headphones play: '' @ title song @ '' by '' @ artist song)"

section \<open>Play strategies\<close>

text \<open>
  The three subclasses of \<open>PlayStrategy\<close> with their fields; a virtual call is a match on
  the constructor.
\<close>

datatype PlayStrategy =
    SequentialPlayStrategy (index: nat)
  | RandomPlayStrategy
  | CustomQueueStrategy (queueIndices: "nat list") (pos: nat)

text \<open>
  \<open>getNextSong\<close> returns the song or the exception, and the strategy object as the call
  leaves it. Its first argument is the value that \<open>rand()\<close> returns if the call reaches
  it: the C library's generator is not part of the program, and \<open>rand()\<close> yields an
  \<open>int\<close> from 0 to \<open>RAND_MAX\<close>, which the conversion to \<open>size_t\<close> leaves as it is.
\<close>

fun getNextSong :: "nat \<Rightarrow> PlayStrategy \<Rightarrow> Playlist \<Rightarrow> Song result \<times> PlayStrategy" where
  "getNextSong r (SequentialPlayStrategy i) playlist =
     (if size_Playlist playlist = 0 then (Inl EmptyPlaylist, SequentialPlayStrategy i)
      else (Inr (getSongs playlist ! (i mod size_Playlist playlist)),
            SequentialPlayStrategy ((i + 1) mod size_Playlist playlist)))"
| "getNextSong r RandomPlayStrategy playlist =
     (if size_Playlist playlist = 0 then (Inl EmptyPlaylist, RandomPlayStrategy)
      else let idx = r mod size_Playlist playlist
           in (Inr (getSongs playlist ! idx), RandomPlayStrategy))"
| "getNextSong r (CustomQueueStrategy q p) playlist =
     (if size_Playlist playlist = 0 then (Inl EmptyPlaylist, CustomQueueStrategy q p)
      else if q = [] then (Inl EmptyQueue, CustomQueueStrategy q p)
      else let idx = q ! (p mod length q)
           in if idx \<ge> size_Playlist playlist
              then (Inl IndexOutOfRange, CustomQueueStrategy q p)
              else (Inr (getSongs playlist ! idx),
                    CustomQueueStrategy q ((p + 1) mod length q)))"

fun reset :: "PlayStrategy \<Rightarrow> PlayStrategy" where
  "reset (SequentialPlayStrategy i) = SequentialPlayStrategy 0"
| "reset RandomPlayStrategy = RandomPlayStrategy"
| "reset (CustomQueueStrategy q p) = CustomQueueStrategy q 0"

text \<open>\<open>setQueue\<close> is a member of \<open>CustomQueueStrategy\<close> only.\<close>

fun setQueue :: "nat list \<Rightarrow> PlayStrategy \<Rightarrow> PlayStrategy" where
  "setQueue q (CustomQueueStrategy q0 p0) = CustomQueueStrategy q 0"

text \<open>
  Successive calls of \<open>getNextSong\<close> on one strategy object, one for each element of the
  list of values of \<open>rand()\<close>: the results in call order and the object after the last
  call. This is the observer the traversal properties are stated with; the program has
  no such function.
\<close>

fun calls :: "nat list \<Rightarrow> PlayStrategy \<Rightarrow> Playlist \<Rightarrow> Song result list \<times> PlayStrategy" where
  "calls [] s playlist = ([], s)"
| "calls (r # rs) s playlist =
     (case getNextSong r s playlist of
        (x, s1) \<Rightarrow> (case calls rs s1 playlist of (xs, s2) \<Rightarrow> (x # xs, s2)))"

section \<open>The facade, its engine and the free store\<close>

text \<open>
  \<open>AudioEngine\<close> holds three raw pointers, \<open>None\<close> for \<open>nullptr\<close>. The only
  \<open>Playlist\<close> whose address is ever taken is the facade's own member, which lives as
  long as the facade, so that pointer is null or points there. The other two point into
  the free store.
\<close>

type_synonym addr = nat

record AudioEngine =
  playlist :: "unit option"
  strategy :: "addr option"
  device :: "addr option"

text \<open>
  A \<open>MusicPlayerFacade\<close> with what its pointers refer to: the members
  \<open>playlistManager\<close> (a \<open>Playlist\<close> in a wrapper), \<open>deviceManager\<close> (a
  \<open>unique_ptr\<close> in a wrapper), \<open>strategyPtr\<close> and \<open>engine\<close>; the objects of the free
  store by address, where a destroyed object leaves \<open>None\<close>; the next address
  \<open>make_unique\<close> hands out (an address is not handed out twice, so a pointer to a
  destroyed object is recognised); and the lines written to \<open>cout\<close>.
\<close>

record state =
  playlistManager :: Playlist
  deviceManager :: "addr option"
  strategyPtr :: "addr option"
  engine :: AudioEngine
  devices :: "addr \<Rightarrow> IAudioOutputDevice option"
  strategies :: "addr \<Rightarrow> PlayStrategy option"
  fresh :: addr
  cout :: "string list"

definition MusicPlayerFacade :: state where
  "MusicPlayerFacade =
     \<lparr>playlistManager = \<lparr>songs = []\<rparr>, deviceManager = None, strategyPtr = None,
      engine = \<lparr>playlist = None, strategy = None, device = None\<rparr>,
      devices = Map.empty, strategies = Map.empty, fresh = 0, cout = []\<rparr>"

definition addSongToPlaylist :: "Song \<Rightarrow> state \<Rightarrow> state" where
  "addSongToPlaylist song st = st\<lparr>playlistManager := addSong song (playlistManager st)\<rparr>"

definition removeSongFromPlaylist :: "nat \<Rightarrow> state \<Rightarrow> state" where
  "removeSongFromPlaylist i st = st\<lparr>playlistManager := removeSong i (playlistManager st)\<rparr>"

definition getPlaylist :: "state \<Rightarrow> Playlist" where
  "getPlaylist st = playlistManager st"

subsection \<open>Factories\<close>

definition make_unique_device :: "IAudioOutputDevice \<Rightarrow> state \<Rightarrow> addr option \<times> state" where
  "make_unique_device d st =
     (Some (fresh st), st\<lparr>devices := (devices st)(fresh st \<mapsto> d), fresh := Suc (fresh st)\<rparr>)"

definition make_unique_strategy :: "PlayStrategy \<Rightarrow> state \<Rightarrow> addr option \<times> state" where
  "make_unique_strategy s st =
     (Some (fresh st),
      st\<lparr>strategies := (strategies st)(fresh st \<mapsto> s), fresh := Suc (fresh st)\<rparr>)"

fun DeviceFactory_create :: "DeviceType \<Rightarrow> state \<Rightarrow> addr option \<times> state" where
  "DeviceFactory_create BLUETOOTH st = make_unique_device BluetoothSpeakerAdapter st"
| "DeviceFactory_create WIRED st = make_unique_device WiredSpeakerAdapter st"
| "DeviceFactory_create HEADPHONES st = make_unique_device HeadphonesAdapter st"
| "DeviceFactory_create DeviceType_unnamed st = (None, st)"

fun createStrategy :: "PlayStrategyType \<Rightarrow> state \<Rightarrow> addr option \<times> state" where
  "createStrategy SEQUENTIAL st = make_unique_strategy (SequentialPlayStrategy 0) st"
| "createStrategy RANDOM st = make_unique_strategy RandomPlayStrategy st"
| "createStrategy CUSTOM_QUEUE st = make_unique_strategy (CustomQueueStrategy [] 0) st"
| "createStrategy PlayStrategyType_unnamed st = (None, st)"

subsection \<open>Owning pointers\<close>

text \<open>
  Assigning to a \<open>unique_ptr\<close> destroys the object it owned, if any, and stores the
  new pointer, null included.
\<close>

definition destroy :: "addr option \<Rightarrow> (addr \<Rightarrow> 'a option) \<Rightarrow> (addr \<Rightarrow> 'a option)" where
  "destroy p store = (case p of None \<Rightarrow> store | Some old \<Rightarrow> store(old := None))"

definition assign_device :: "addr option \<Rightarrow> state \<Rightarrow> state" where
  "assign_device p st =
     st\<lparr>devices := destroy (deviceManager st) (devices st), deviceManager := p\<rparr>"

definition assign_strategyPtr :: "addr option \<Rightarrow> state \<Rightarrow> state" where
  "assign_strategyPtr p st =
     st\<lparr>strategies := destroy (strategyPtr st) (strategies st), strategyPtr := p\<rparr>"

definition selectDevice :: "DeviceType \<Rightarrow> state \<Rightarrow> unit result \<times> state" where
  "selectDevice type st =
     (case DeviceFactory_create type st of
        (p, st1) \<Rightarrow>
          let st2 = assign_device p st1
          in if deviceManager st2 = None then (Inl DeviceCreationFailed, st2)
             else (Inr (), st2))"

definition getDevice :: "state \<Rightarrow> addr option" where
  "getDevice st = deviceManager st"

subsection \<open>AudioEngine\<close>

definition loadPlaylist :: "state \<Rightarrow> state" where
  "loadPlaylist st = st\<lparr>engine := (engine st)\<lparr>playlist := Some ()\<rparr>\<rparr>"

definition setDevice :: "addr option \<Rightarrow> state \<Rightarrow> state" where
  "setDevice dev st = st\<lparr>engine := (engine st)\<lparr>device := dev\<rparr>\<rparr>"

text \<open>\<open>strategy = ps; strategy->reset();\<close>\<close>

definition setStrategy :: "addr option \<Rightarrow> state \<Rightarrow> unit result \<times> state" where
  "setStrategy ps st =
     (let st1 = st\<lparr>engine := (engine st)\<lparr>strategy := ps\<rparr>\<rparr>
      in case ps of
           None \<Rightarrow> (Inl undefined_behaviour, st1)
         | Some a \<Rightarrow>
            (case strategies st1 a of
               None \<Rightarrow> (Inl undefined_behaviour, st1)
             | Some s \<Rightarrow> (Inr (), st1\<lparr>strategies := (strategies st1)(a \<mapsto> reset s)\<rparr>)))"

text \<open>
  \<open>playNext\<close> with the value of \<open>rand()\<close> for this call. An exception of the strategy
  leaves before \<open>playSound\<close>.
\<close>

definition playNext :: "nat \<Rightarrow> state \<Rightarrow> unit result \<times> state" where
  "playNext r st =
     (case (playlist (engine st), strategy (engine st), device (engine st)) of
        (Some _, Some ps, Some dev) \<Rightarrow>
          (case strategies st ps of
             None \<Rightarrow> (Inl undefined_behaviour, st)
           | Some s \<Rightarrow>
              (case getNextSong r s (playlistManager st) of
                 (Inl e, s1) \<Rightarrow> (Inl e, st\<lparr>strategies := (strategies st)(ps \<mapsto> s1)\<rparr>)
               | (Inr song, s1) \<Rightarrow>
                  let st1 = st\<lparr>strategies := (strategies st)(ps \<mapsto> s1)\<rparr>
                  in (case devices st1 dev of
                        None \<Rightarrow> (Inl undefined_behaviour, st1)
                      | Some d \<Rightarrow> (Inr (), st1\<lparr>cout := cout st1 @ [playSound d song]\<rparr>))))
      | _ \<Rightarrow> (Inl NotConfigured, st))"

text \<open>
  \<open>for (size_t i = 0; i < count; ++i) playNext();\<close> from counter \<open>i\<close> on; \<open>rnd i\<close> is the
  value of \<open>rand()\<close> in iteration \<open>i\<close>. An exception leaves the loop.
\<close>

function playMultiple_loop :: "(nat \<Rightarrow> nat) \<Rightarrow> nat \<Rightarrow> nat \<Rightarrow> state \<Rightarrow> unit result \<times> state" where
  "playMultiple_loop rnd i count st =
     (if i < count
      then (case playNext (rnd i) st of
              (Inl e, st1) \<Rightarrow> (Inl e, st1)
            | (Inr _, st1) \<Rightarrow> playMultiple_loop rnd (i + 1) count st1)
      else (Inr (), st))"
  by pat_completeness auto
termination
  by (relation "measure (\<lambda>(rnd, i, count, st). count - i)") auto

declare playMultiple_loop.simps [simp del]

definition playMultiple :: "(nat \<Rightarrow> nat) \<Rightarrow> nat \<Rightarrow> state \<Rightarrow> unit result \<times> state" where
  "playMultiple rnd count st = playMultiple_loop rnd 0 count st"

subsection \<open>MusicPlayerFacade::configure and configureCustom\<close>

definition configure :: "DeviceType \<Rightarrow> PlayStrategyType \<Rightarrow> state \<Rightarrow> unit result \<times> state" where
  "configure dt pst st =
     (case selectDevice dt st of
        (Inl e, st1) \<Rightarrow> (Inl e, st1)
      | (Inr _, st1) \<Rightarrow>
         (case createStrategy pst st1 of
            (p, st2) \<Rightarrow>
              let st3 = assign_strategyPtr p st2
              in if strategyPtr st3 = None then (Inl InvalidStrategy, st3)
                 else let st4 = setDevice (getDevice st3) st3
                      in (case setStrategy (strategyPtr st4) st4 of
                            (Inl e, st5) \<Rightarrow> (Inl e, st5)
                          | (Inr _, st5) \<Rightarrow> (Inr (), loadPlaylist st5))))"

text \<open>
  The \<open>dynamic_cast\<close> gives a null pointer unless the object is a
  \<open>CustomQueueStrategy\<close>. \<open>strategyPtr\<close> owns the object it was just given, so the
  object is there.
\<close>

definition configureCustom :: "DeviceType \<Rightarrow> nat list \<Rightarrow> state \<Rightarrow> unit result \<times> state" where
  "configureCustom dt customQueue st =
     (case selectDevice dt st of
        (Inl e, st1) \<Rightarrow> (Inl e, st1)
      | (Inr _, st1) \<Rightarrow>
         (case createStrategy CUSTOM_QUEUE st1 of
            (p, st2) \<Rightarrow>
              let st3 = assign_strategyPtr p st2
              in (case strategyPtr st3 of
                    None \<Rightarrow> (Inl InvalidStrategy, st3)
                  | Some a \<Rightarrow>
                     (case strategies st3 a of
                        Some (CustomQueueStrategy q0 p0) \<Rightarrow>
                          let st4 = st3\<lparr>strategies := (strategies st3)
                                        (a \<mapsto> setQueue customQueue (CustomQueueStrategy q0 p0))\<rparr>;
                              st5 = setDevice (getDevice st4) st4
                          in (case setStrategy (strategyPtr st5) st5 of
                                (Inl e, st6) \<Rightarrow> (Inl e, st6)
                              | (Inr _, st6) \<Rightarrow> (Inr (), loadPlaylist st6))
                      | Some _ \<Rightarrow>
                          (Inl (runtime_error ''Failed to cast to CustomQueueStrategy''), st3)
                      | None \<Rightarrow> (Inl undefined_behaviour, st3)))))"

section \<open>Notions the properties are stated with\<close>

text \<open>
  An owning pointer holds an address that \<open>make_unique\<close> has handed out before. This
  holds of a new facade and every operation keeps it (lemmas \<open>owned_MusicPlayerFacade\<close>
  to \<open>owned_configureCustom\<close>), so it restricts no state the program can reach.
\<close>

definition owned :: "state \<Rightarrow> bool" where
  "owned st =
     ((case deviceManager st of None \<Rightarrow> True | Some a \<Rightarrow> a < fresh st) \<and>
      (case strategyPtr st of None \<Rightarrow> True | Some a \<Rightarrow> a < fresh st))"

text \<open>
  The engine is bound: none of its pointers is null, and the strategy and the device
  pointed to exist.
\<close>

definition bound :: "state \<Rightarrow> bool" where
  "bound st =
     (playlist (engine st) \<noteq> None \<and>
      (case strategy (engine st) of None \<Rightarrow> False | Some ps \<Rightarrow> strategies st ps \<noteq> None) \<and>
      (case device (engine st) of None \<Rightarrow> False | Some dev \<Rightarrow> devices st dev \<noteq> None))"

text \<open>
  The states a caller can bring a facade into with calls that return or throw, where
  every \<open>configure\<close> and \<open>configureCustom\<close> is given kinds among the enumerators.
\<close>

inductive reachable :: "state \<Rightarrow> bool" where
  new: "reachable MusicPlayerFacade"
| add: "reachable st \<Longrightarrow> reachable (addSongToPlaylist song st)"
| remove: "reachable st \<Longrightarrow> reachable (removeSongFromPlaylist i st)"
| configure: "reachable st \<Longrightarrow> dt \<noteq> DeviceType_unnamed \<Longrightarrow> pst \<noteq> PlayStrategyType_unnamed \<Longrightarrow>
      reachable (snd (configure dt pst st))"
| configureCustom: "reachable st \<Longrightarrow> dt \<noteq> DeviceType_unnamed \<Longrightarrow>
      reachable (snd (configureCustom dt q st))"
| playNext: "reachable st \<Longrightarrow> reachable (snd (playNext r st))"
| playMultiple: "reachable st \<Longrightarrow> reachable (snd (playMultiple rnd count st))"

text \<open>
  The state after \<open>k\<close> calls of \<open>playNext\<close> in a row, call \<open>j\<close> (from 0) with
  \<open>rnd j\<close>, whatever their outcomes.
\<close>

fun after_calls :: "(nat \<Rightarrow> nat) \<Rightarrow> nat \<Rightarrow> state \<Rightarrow> state" where
  "after_calls rnd 0 st = st"
| "after_calls rnd (Suc k) st = snd (playNext (rnd k) (after_calls rnd k st))"

text \<open>The four songs that \<open>main\<close> adds, for the examples.\<close>

definition main_songs :: "Song list" where
  "main_songs =
     [\<lparr>title = ''Lose Yourself'', artist = ''Eminem''\<rparr>,
      \<lparr>title = ''Bohemian Rhapsody'', artist = ''Queen''\<rparr>,
      \<lparr>title = ''Blinding Lights'', artist = ''The Weeknd''\<rparr>,
      \<lparr>title = ''Imagine'', artist = ''John Lennon''\<rparr>]"

definition main_player :: state where
  "main_player = foldl (\<lambda>st song. addSongToPlaylist song st) MusicPlayerFacade main_songs"

text \<open>
  A session for the examples: \<open>main\<close>'s first \<open>configure\<close>, two songs played, and
  then a \<open>configure\<close> with a strategy kind that is none of the enumerators.
\<close>

definition session_configured :: state where
  "session_configured = snd (configure HEADPHONES SEQUENTIAL main_player)"

definition session_played :: state where
  "session_played = snd (playMultiple (\<lambda>i. 0) 2 session_configured)"

definition session_failed :: state where
  "session_failed = snd (configure BLUETOOTH PlayStrategyType_unnamed session_played)"

text \<open>A session whose queue has an entry that is no position of the playlist.\<close>

definition session_custom :: state where
  "session_custom = snd (configureCustom WIRED [1, 9, 0] main_player)"

section \<open>Sequences of calls\<close>

lemma fst_calls_Cons:
  "fst (calls (r # rs) s pl) = fst (getNextSong r s pl) # fst (calls rs (snd (getNextSong r s pl)) pl)"
  by (simp add: case_prod_unfold)

lemma snd_calls_Cons:
  "snd (calls (r # rs) s pl) = snd (calls rs (snd (getNextSong r s pl)) pl)"
  by (simp add: case_prod_unfold)

lemma calls_length: "length (fst (calls rs s pl)) = length rs"
  by (induction rs arbitrary: s) (simp_all add: fst_calls_Cons del: calls.simps(2))

section \<open>Sequential strategy\<close>

lemma getNextSong_Sequential:
  "songs pl \<noteq> [] \<Longrightarrow>
   getNextSong r (SequentialPlayStrategy i) pl =
     (Inr (getSongs pl ! (i mod size_Playlist pl)),
      SequentialPlayStrategy ((i + 1) mod size_Playlist pl))"
  by (simp add: size_Playlist_def)

lemma calls_Sequential_nth:
  "songs pl \<noteq> [] \<Longrightarrow> k < length rs \<Longrightarrow>
   fst (calls rs (SequentialPlayStrategy i) pl) ! k
     = Inr (getSongs pl ! ((i + k) mod size_Playlist pl))"
proof (induction rs arbitrary: i k)
  case Nil
  then show ?case by simp
next
  case (Cons r rs)
  note step = getNextSong_Sequential [OF Cons.prems(1)]
  show ?case
  proof (cases k)
    case 0
    then show ?thesis by (simp add: fst_calls_Cons step del: calls.simps(2) getNextSong.simps)
  next
    case (Suc j)
    with Cons.prems have j: "j < length rs" by simp
    have "fst (calls rs (SequentialPlayStrategy ((i + 1) mod size_Playlist pl)) pl) ! j
          = Inr (getSongs pl ! (((i + 1) mod size_Playlist pl + j) mod size_Playlist pl))"
      by (rule Cons.IH [OF Cons.prems(1) j])
    moreover have "((i + 1) mod size_Playlist pl + j) mod size_Playlist pl
          = (i + k) mod size_Playlist pl"
      using Suc by (simp add: mod_add_left_eq)
    ultimately show ?thesis using Suc
      by (simp add: fst_calls_Cons step del: calls.simps(2) getNextSong.simps)
  qed
qed

lemma calls_Sequential_snd:
  "\<exists>j. snd (calls rs (SequentialPlayStrategy i) pl) = SequentialPlayStrategy j"
proof (induction rs arbitrary: i)
  case Nil
  show ?case by simp
next
  case (Cons r rs)
  obtain i' where "snd (getNextSong r (SequentialPlayStrategy i) pl) = SequentialPlayStrategy i'"
    by (cases "size_Playlist pl = 0") simp_all
  then show ?case using Cons.IH [of i']
    by (simp add: snd_calls_Cons del: calls.simps(2) getNextSong.simps)
qed

text \<open>
  Claim C1. On a playlist of \<open>N > 0\<close> songs, the results of successive calls of
  \<open>getNextSong\<close> on a new Sequential strategy are as follows. \<open>N\<close> calls return the
  songs in playlist order. Call \<open>j\<close> (from 0) returns the song at \<open>j mod N\<close>, so
  call \<open>N + k\<close> returns what call \<open>k\<close> returned. After any number of calls and a
  \<open>reset\<close>, \<open>N\<close> calls return the songs in playlist order again.
\<close>

theorem C1_sequential_order_cyclic_reset:
  assumes "songs pl \<noteq> []"
  shows "(length rs = size_Playlist pl \<longrightarrow>
            fst (calls rs (SequentialPlayStrategy 0) pl) = map Inr (getSongs pl))
       \<and> (\<forall>j < length rs. fst (calls rs (SequentialPlayStrategy 0) pl) ! j
               = Inr (getSongs pl ! (j mod size_Playlist pl)))
       \<and> (size_Playlist pl + k < length rs \<longrightarrow>
            fst (calls rs (SequentialPlayStrategy 0) pl) ! (size_Playlist pl + k)
              = fst (calls rs (SequentialPlayStrategy 0) pl) ! k)
       \<and> (length rs' = size_Playlist pl \<longrightarrow>
            fst (calls rs' (reset (snd (calls rs (SequentialPlayStrategy 0) pl))) pl)
              = map Inr (getSongs pl))"
proof -
  have nth0: "\<And>qs j. j < length qs \<Longrightarrow>
      fst (calls qs (SequentialPlayStrategy 0) pl) ! j = Inr (getSongs pl ! (j mod size_Playlist pl))"
    using calls_Sequential_nth [OF assms, where i = 0] by simp
  have full: "\<And>qs. length qs = size_Playlist pl \<Longrightarrow>
      fst (calls qs (SequentialPlayStrategy 0) pl) = map Inr (getSongs pl)"
  proof (rule nth_equalityI)
    fix qs :: "nat list"
    assume len: "length qs = size_Playlist pl"
    show "length (fst (calls qs (SequentialPlayStrategy 0) pl)) = length (map Inr (getSongs pl))"
      using len by (simp add: calls_length size_Playlist_def getSongs_def)
    fix j
    assume "j < length (fst (calls qs (SequentialPlayStrategy 0) pl))"
    then have j: "j < length qs" by (simp add: calls_length)
    then show "fst (calls qs (SequentialPlayStrategy 0) pl) ! j = map Inr (getSongs pl) ! j"
      using len nth0 [OF j] by (simp add: size_Playlist_def getSongs_def)
  qed
  have cyc: "size_Playlist pl + k < length rs \<Longrightarrow>
            fst (calls rs (SequentialPlayStrategy 0) pl) ! (size_Playlist pl + k)
              = fst (calls rs (SequentialPlayStrategy 0) pl) ! k"
    by (simp add: nth0)
  obtain j where "snd (calls rs (SequentialPlayStrategy 0) pl) = SequentialPlayStrategy j"
    using calls_Sequential_snd by blast
  then have rst: "reset (snd (calls rs (SequentialPlayStrategy 0) pl)) = SequentialPlayStrategy 0"
    by simp
  show ?thesis using full nth0 cyc rst by simp
qed

theorem C1_sequential_order_cyclic_reset_witness:
  "songs \<lparr>songs = main_songs\<rparr> \<noteq> []
 \<and> fst (calls [7, 7, 7, 7] (SequentialPlayStrategy 0) \<lparr>songs = main_songs\<rparr>) = map Inr main_songs
 \<and> fst (calls [7, 7, 7, 7, 7, 7] (SequentialPlayStrategy 0) \<lparr>songs = main_songs\<rparr>) ! 5
     = Inr (main_songs ! 1)
 \<and> fst (calls [7, 7, 7, 7, 7, 7] (SequentialPlayStrategy 0) \<lparr>songs = main_songs\<rparr>) ! (4 + 1)
     = fst (calls [7, 7, 7, 7, 7, 7] (SequentialPlayStrategy 0) \<lparr>songs = main_songs\<rparr>) ! 1
 \<and> fst (calls [7, 7, 7, 7]
          (reset (snd (calls [7, 7, 7, 7, 7, 7] (SequentialPlayStrategy 0) \<lparr>songs = main_songs\<rparr>)))
          \<lparr>songs = main_songs\<rparr>) = map Inr main_songs"
  using C1_sequential_order_cyclic_reset [of "\<lparr>songs = main_songs\<rparr>" "[7, 7, 7, 7]" 0 "[7, 7, 7, 7]"]
    C1_sequential_order_cyclic_reset [of "\<lparr>songs = main_songs\<rparr>" "[7, 7, 7, 7, 7, 7]" 1 "[7, 7, 7, 7]"]
  by (simp add: main_songs_def size_Playlist_def getSongs_def)

section \<open>Custom queue strategy\<close>

lemma getNextSong_CustomQueue_ok:
  "songs pl \<noteq> [] \<Longrightarrow> q \<noteq> [] \<Longrightarrow> q ! (p mod length q) < size_Playlist pl \<Longrightarrow>
   getNextSong r (CustomQueueStrategy q p) pl =
     (Inr (getSongs pl ! (q ! (p mod length q))), CustomQueueStrategy q ((p + 1) mod length q))"
  by (simp add: size_Playlist_def)

lemma getNextSong_CustomQueue_range:
  "songs pl \<noteq> [] \<Longrightarrow> q \<noteq> [] \<Longrightarrow> size_Playlist pl \<le> q ! (p mod length q) \<Longrightarrow>
   getNextSong r (CustomQueueStrategy q p) pl = (Inl IndexOutOfRange, CustomQueueStrategy q p)"
  by (simp add: size_Playlist_def)

lemma fst_getNextSong_CustomQueue_mod:
  "fst (getNextSong r (CustomQueueStrategy q (p mod length q)) pl) =
   fst (getNextSong r' (CustomQueueStrategy q p) pl)"
  by (simp add: Let_def)

lemma calls_CustomQueue_nth:
  "songs pl \<noteq> [] \<Longrightarrow> q \<noteq> [] \<Longrightarrow>
   \<forall>i<k. q ! ((p + i) mod length q) < size_Playlist pl \<Longrightarrow> k < length rs \<Longrightarrow>
   fst (calls rs (CustomQueueStrategy q p) pl) ! k =
     fst (getNextSong 0 (CustomQueueStrategy q ((p + k) mod length q)) pl)"
proof (induction rs arbitrary: p k)
  case Nil
  then show ?case by simp
next
  case (Cons r rs)
  show ?case
  proof (cases k)
    case 0
    show ?thesis unfolding 0 fst_calls_Cons
      using fst_getNextSong_CustomQueue_mod [of 0 q p pl r] by simp
  next
    case (Suc j)
    from Cons.prems(3) Suc have "q ! ((p + 0) mod length q) < size_Playlist pl" by blast
    then have step: "getNextSong r (CustomQueueStrategy q p) pl =
        (Inr (getSongs pl ! (q ! (p mod length q))), CustomQueueStrategy q ((p + 1) mod length q))"
      using getNextSong_CustomQueue_ok [OF Cons.prems(1,2)] by simp
    have shift: "((p + 1) mod length q + i) mod length q = (p + Suc i) mod length q" for i
      by (simp add: mod_add_left_eq)
    have "\<forall>i<j. q ! (((p + 1) mod length q + i) mod length q) < size_Playlist pl"
    proof (intro allI impI)
      fix i assume "i < j"
      then have "Suc i < k" using Suc by simp
      with Cons.prems(3) have "q ! ((p + Suc i) mod length q) < size_Playlist pl" by blast
      then show "q ! (((p + 1) mod length q + i) mod length q) < size_Playlist pl"
        by (simp only: shift)
    qed
    moreover have "j < length rs" using Cons.prems(4) Suc by simp
    ultimately have "fst (calls rs (CustomQueueStrategy q ((p + 1) mod length q)) pl) ! j =
        fst (getNextSong 0 (CustomQueueStrategy q (((p + 1) mod length q + j) mod length q)) pl)"
      using Cons.IH [OF Cons.prems(1,2)] by blast
    then have "fst (calls rs (CustomQueueStrategy q ((p + 1) mod length q)) pl) ! j =
        fst (getNextSong 0 (CustomQueueStrategy q ((p + Suc j) mod length q)) pl)"
      by (simp only: shift)
    then show ?thesis
      by (simp only: Suc fst_calls_Cons step snd_conv nth_Cons_Suc)
  qed
qed

text \<open>
  Claim C2. On a non-empty playlist and a non-empty queue, a call of the CustomQueue
  strategy's \<open>getNextSong\<close> that returns a song returns
  \<open>playlist[queue[pos mod len]]\<close> and leaves \<open>pos = (pos + 1) mod len\<close>; it returns
  one whenever that queue entry is a position of the playlist. With the queue
  \<open>[1, 0, 3, 2]\<close> on a playlist of four songs, call \<open>j\<close> (from 0) returns the song
  at position \<open>[1, 0, 3, 2] ! (j mod 4)\<close>: the order 1, 0, 3, 2, again and again.
\<close>

theorem C2_custom_queue_order:
  assumes "songs pl \<noteq> []" and "q \<noteq> []"
  shows "(fst (getNextSong r (CustomQueueStrategy q p) pl) = Inr s \<longrightarrow>
            s = getSongs pl ! (q ! (p mod length q))
          \<and> snd (getNextSong r (CustomQueueStrategy q p) pl)
              = CustomQueueStrategy q ((p + 1) mod length q))
       \<and> (q ! (p mod length q) < size_Playlist pl \<longrightarrow>
            getNextSong r (CustomQueueStrategy q p) pl
              = (Inr (getSongs pl ! (q ! (p mod length q))),
                 CustomQueueStrategy q ((p + 1) mod length q)))
       \<and> (size_Playlist pl = 4 \<longrightarrow>
            (\<forall>j < length rs.
               fst (calls rs (setQueue [1, 0, 3, 2] (CustomQueueStrategy q0 p0)) pl) ! j
                 = Inr (getSongs pl ! ([1, 0, 3, 2] ! (j mod 4)))))"
proof (intro conjI impI allI)
  assume "fst (getNextSong r (CustomQueueStrategy q p) pl) = Inr s"
  then show "s = getSongs pl ! (q ! (p mod length q))"
    using assms by (simp add: Let_def split: if_splits)
next
  assume "fst (getNextSong r (CustomQueueStrategy q p) pl) = Inr s"
  then show "snd (getNextSong r (CustomQueueStrategy q p) pl)
              = CustomQueueStrategy q ((p + 1) mod length q)"
    using assms by (simp add: Let_def split: if_splits)
next
  assume "q ! (p mod length q) < size_Playlist pl"
  then show "getNextSong r (CustomQueueStrategy q p) pl
              = (Inr (getSongs pl ! (q ! (p mod length q))),
                 CustomQueueStrategy q ((p + 1) mod length q))"
    using assms by (simp add: getNextSong_CustomQueue_ok)
next
  fix j
  assume four: "size_Playlist pl = 4" and j: "j < length rs"
  let ?q = "[1, 0, 3, 2] :: nat list"
  have entries: "?q ! i < size_Playlist pl" if "i < 4" for i
  proof -
    from that have "i = 0 \<or> i = 1 \<or> i = 2 \<or> i = 3" by arith
    then show ?thesis using four by auto
  qed
  have "\<forall>i<j. ?q ! ((0 + i) mod length ?q) < size_Playlist pl"
  proof (intro allI impI)
    fix i
    have "(0 + i) mod length ?q < 4" by simp
    then show "?q ! ((0 + i) mod length ?q) < size_Playlist pl" by (rule entries)
  qed
  then have "fst (calls rs (CustomQueueStrategy ?q 0) pl) ! j =
        fst (getNextSong 0 (CustomQueueStrategy ?q ((0 + j) mod length ?q)) pl)"
    using calls_CustomQueue_nth [OF assms(1) _ _ j, of ?q 0] by simp
  also have "\<dots> = Inr (getSongs pl ! (?q ! (j mod 4)))"
    using getNextSong_CustomQueue_ok [OF assms(1), of ?q "j mod 4" 0] entries [of "j mod 4"]
    by simp
  finally show "fst (calls rs (setQueue ?q (CustomQueueStrategy q0 p0)) pl) ! j
                 = Inr (getSongs pl ! (?q ! (j mod 4)))"
    by simp
qed

theorem C2_custom_queue_order_witness:
  "songs \<lparr>songs = main_songs\<rparr> \<noteq> [] \<and> [1, 0, 3, 2] \<noteq> ([] :: nat list)
 \<and> getNextSong 7 (CustomQueueStrategy [1, 0, 3, 2] 2) \<lparr>songs = main_songs\<rparr>
     = (Inr (main_songs ! 3), CustomQueueStrategy [1, 0, 3, 2] 3)
 \<and> fst (calls [7, 7, 7, 7, 7, 7, 7, 7] (setQueue [1, 0, 3, 2] (CustomQueueStrategy [] 0))
          \<lparr>songs = main_songs\<rparr>)
     = map Inr [main_songs ! 1, main_songs ! 0, main_songs ! 3, main_songs ! 2,
                main_songs ! 1, main_songs ! 0, main_songs ! 3, main_songs ! 2]"
  using C2_custom_queue_order [of "\<lparr>songs = main_songs\<rparr>" "[1, 0, 3, 2]" 7 2 "main_songs ! 3"
      "[7, 7, 7, 7, 7, 7, 7, 7]" "[]" 0]
  by (simp add: main_songs_def size_Playlist_def getSongs_def)

text \<open>
  Claim C3. The CustomQueue strategy's \<open>getNextSong\<close> throws "Playlist is empty" on
  an empty playlist, whatever the queue; otherwise "Custom queue is empty" on an empty
  queue, which is the queue of the object that \<open>createStrategy\<close> builds; otherwise
  "Queue index out of range" when the entry at \<open>pos mod len\<close> is not a position of
  the playlist. \<open>setQueue\<close> stores any queue unchecked: when entry \<open>j\<close> is the
  first one out of range, the calls before call \<open>j\<close> return their songs and call
  \<open>j\<close> throws.
\<close>

theorem C3_custom_queue_errors:
  "(songs pl = [] \<longrightarrow>
      getNextSong r (CustomQueueStrategy q p) pl = (Inl EmptyPlaylist, CustomQueueStrategy q p))
 \<and> (songs pl \<noteq> [] \<and> q = [] \<longrightarrow>
      getNextSong r (CustomQueueStrategy q p) pl = (Inl EmptyQueue, CustomQueueStrategy q p))
 \<and> (songs pl \<noteq> [] \<longrightarrow>
      fst (createStrategy CUSTOM_QUEUE st) = Some (fresh st)
    \<and> strategies (snd (createStrategy CUSTOM_QUEUE st)) (fresh st)
        = Some (CustomQueueStrategy [] 0)
    \<and> fst (getNextSong r (CustomQueueStrategy [] 0) pl) = Inl EmptyQueue)
 \<and> (songs pl \<noteq> [] \<and> q \<noteq> [] \<and> size_Playlist pl \<le> q ! (p mod length q) \<longrightarrow>
      getNextSong r (CustomQueueStrategy q p) pl
        = (Inl IndexOutOfRange, CustomQueueStrategy q p))
 \<and> setQueue q (CustomQueueStrategy q0 p0) = CustomQueueStrategy q 0
 \<and> (songs pl \<noteq> [] \<and> j < length q \<and> (\<forall>i<j. q ! i < size_Playlist pl)
      \<and> size_Playlist pl \<le> q ! j \<and> j < length rs \<longrightarrow>
      (\<forall>i<j. fst (calls rs (setQueue q (CustomQueueStrategy q0 p0)) pl) ! i
                = Inr (getSongs pl ! (q ! i)))
    \<and> fst (calls rs (setQueue q (CustomQueueStrategy q0 p0)) pl) ! j = Inl IndexOutOfRange)"
proof -
  have lazy: "(\<forall>i<j. fst (calls rs (CustomQueueStrategy q 0) pl) ! i = Inr (getSongs pl ! (q ! i)))
      \<and> fst (calls rs (CustomQueueStrategy q 0) pl) ! j = Inl IndexOutOfRange"
    if ne: "songs pl \<noteq> []" and jq: "j < length q"
      and ok: "\<forall>i<j. q ! i < size_Playlist pl"
      and bad: "size_Playlist pl \<le> q ! j" and jr: "j < length rs"
  proof -
    from jq have qne: "q \<noteq> []" by auto
    have reach: "fst (calls rs (CustomQueueStrategy q 0) pl) ! i
        = fst (getNextSong 0 (CustomQueueStrategy q i) pl)" if "i \<le> j" for i
    proof -
      have "\<forall>i'<i. q ! ((0 + i') mod length q) < size_Playlist pl"
        using ok jq that by simp
      moreover have "i < length rs" using that jr by simp
      ultimately have "fst (calls rs (CustomQueueStrategy q 0) pl) ! i
        = fst (getNextSong 0 (CustomQueueStrategy q ((0 + i) mod length q)) pl)"
        by (rule calls_CustomQueue_nth [OF ne qne])
      moreover have "(0 + i) mod length q = i" using that jq by simp
      ultimately show ?thesis by (simp only:)
    qed
    have "fst (calls rs (CustomQueueStrategy q 0) pl) ! i = Inr (getSongs pl ! (q ! i))"
      if "i < j" for i
    proof -
      have "q ! (i mod length q) < size_Playlist pl" using that ok jq by simp
      then have "fst (getNextSong 0 (CustomQueueStrategy q i) pl)
          = Inr (getSongs pl ! (q ! (i mod length q)))"
        by (simp only: getNextSong_CustomQueue_ok [OF ne qne] fst_conv)
      moreover have "i mod length q = i" using that jq by simp
      ultimately show ?thesis by (simp only: reach [OF less_imp_le [OF that]])
    qed
    moreover have "fst (calls rs (CustomQueueStrategy q 0) pl) ! j = Inl IndexOutOfRange"
    proof -
      have "size_Playlist pl \<le> q ! (j mod length q)" using bad jq by simp
      then have "fst (getNextSong 0 (CustomQueueStrategy q j) pl) = Inl IndexOutOfRange"
        by (simp only: getNextSong_CustomQueue_range [OF ne qne] fst_conv)
      then show ?thesis by (simp only: reach [OF order_refl])
    qed
    ultimately show ?thesis by blast
  qed
  have "songs pl = [] \<longrightarrow>
      getNextSong r (CustomQueueStrategy q p) pl = (Inl EmptyPlaylist, CustomQueueStrategy q p)"
    by (simp add: size_Playlist_def)
  moreover have "songs pl \<noteq> [] \<and> q = [] \<longrightarrow>
      getNextSong r (CustomQueueStrategy q p) pl = (Inl EmptyQueue, CustomQueueStrategy q p)"
    by (simp add: size_Playlist_def)
  moreover have "songs pl \<noteq> [] \<longrightarrow>
      fst (createStrategy CUSTOM_QUEUE st) = Some (fresh st)
    \<and> strategies (snd (createStrategy CUSTOM_QUEUE st)) (fresh st)
        = Some (CustomQueueStrategy [] 0)
    \<and> fst (getNextSong r (CustomQueueStrategy [] 0) pl) = Inl EmptyQueue"
    by (simp add: size_Playlist_def make_unique_strategy_def)
  moreover have "songs pl \<noteq> [] \<and> q \<noteq> [] \<and> size_Playlist pl \<le> q ! (p mod length q) \<longrightarrow>
      getNextSong r (CustomQueueStrategy q p) pl
        = (Inl IndexOutOfRange, CustomQueueStrategy q p)"
    using getNextSong_CustomQueue_range by blast
  moreover have "setQueue q (CustomQueueStrategy q0 p0) = CustomQueueStrategy q 0"
    by simp
  ultimately show ?thesis using lazy by (simp only: setQueue.simps) blast
qed

theorem C3_custom_queue_errors_witness:
  "getNextSong 7 (CustomQueueStrategy [1, 0] 0) \<lparr>songs = []\<rparr>
     = (Inl EmptyPlaylist, CustomQueueStrategy [1, 0] 0)
 \<and> getNextSong 7 (CustomQueueStrategy [] 0) \<lparr>songs = main_songs\<rparr>
     = (Inl EmptyQueue, CustomQueueStrategy [] 0)
 \<and> strategies (snd (createStrategy CUSTOM_QUEUE MusicPlayerFacade)) 0
     = Some (CustomQueueStrategy [] 0)
 \<and> getNextSong 7 (CustomQueueStrategy [1, 9, 0] 1) \<lparr>songs = main_songs\<rparr>
     = (Inl IndexOutOfRange, CustomQueueStrategy [1, 9, 0] 1)
 \<and> fst (calls [7, 7, 7] (setQueue [1, 9, 0] (CustomQueueStrategy [] 0)) \<lparr>songs = main_songs\<rparr>)
     = [Inr (main_songs ! 1), Inl IndexOutOfRange, Inl IndexOutOfRange]"
  using C3_custom_queue_errors [of "\<lparr>songs = []\<rparr>" 7 "[1, 0]" 0]
    C3_custom_queue_errors [of "\<lparr>songs = main_songs\<rparr>" 7 "[]" 0 MusicPlayerFacade]
    C3_custom_queue_errors [of "\<lparr>songs = main_songs\<rparr>" 7 "[1, 9, 0]" 1 _ _ _ 1 "[7, 7, 7]"]
  by (simp add: main_songs_def size_Playlist_def getSongs_def MusicPlayerFacade_def
      make_unique_strategy_def)

text \<open>
  Claim C10. When the CustomQueue strategy's \<open>getNextSong\<close> throws, the exception is
  one of the three above and the object is as it was, queue and \<open>pos\<close>; a later call
  that returns a song, on whatever playlist, returns the one at the queue entry
  \<open>pos mod len\<close> of before.
\<close>

theorem C10_custom_queue_failure_keeps_cursor:
  assumes "fst (getNextSong r (CustomQueueStrategy q p) pl) = Inl e"
  shows "snd (getNextSong r (CustomQueueStrategy q p) pl) = CustomQueueStrategy q p
       \<and> (e = EmptyPlaylist \<or> e = EmptyQueue \<or> e = IndexOutOfRange)
       \<and> (fst (getNextSong r' (snd (getNextSong r (CustomQueueStrategy q p) pl)) pl') = Inr s
            \<longrightarrow> s = getSongs pl' ! (q ! (p mod length q)))"
proof -
  have keep: "snd (getNextSong r (CustomQueueStrategy q p) pl) = CustomQueueStrategy q p"
    using assms by (simp add: Let_def split: if_splits)
  have kind: "e = EmptyPlaylist \<or> e = EmptyQueue \<or> e = IndexOutOfRange"
    using assms by (auto simp: Let_def split: if_splits)
  have "fst (getNextSong r' (CustomQueueStrategy q p) pl') = Inr s
            \<Longrightarrow> s = getSongs pl' ! (q ! (p mod length q))"
    by (simp add: Let_def split: if_splits)
  with keep kind show ?thesis by simp
qed

theorem C10_custom_queue_failure_keeps_cursor_witness:
  "fst (getNextSong 7 (CustomQueueStrategy [1, 3, 0] 1)
         \<lparr>songs = take 2 main_songs\<rparr>) = Inl IndexOutOfRange
 \<and> snd (getNextSong 7 (CustomQueueStrategy [1, 3, 0] 1) \<lparr>songs = take 2 main_songs\<rparr>)
     = CustomQueueStrategy [1, 3, 0] 1
 \<and> fst (getNextSong 7
          (snd (getNextSong 7 (CustomQueueStrategy [1, 3, 0] 1) \<lparr>songs = take 2 main_songs\<rparr>))
          \<lparr>songs = main_songs\<rparr>) = Inr (main_songs ! 3)"
proof -
  have h: "fst (getNextSong 7 (CustomQueueStrategy [1, 3, 0] 1)
         \<lparr>songs = take 2 main_songs\<rparr>) = Inl IndexOutOfRange"
    by (simp add: main_songs_def size_Playlist_def)
  show ?thesis
    using h C10_custom_queue_failure_keeps_cursor [OF h, of 7 "\<lparr>songs = main_songs\<rparr>" "main_songs ! 3"]
    by (simp add: main_songs_def size_Playlist_def getSongs_def)
qed

section \<open>Random strategy\<close>

text \<open>
  Claim C9. On a playlist of \<open>N > 0\<close> songs and for every value \<open>r\<close> of \<open>rand()\<close>,
  the Random strategy's \<open>getNextSong\<close> reads position \<open>r mod N < N\<close> and returns that
  song, a member of the playlist; on an empty playlist it throws "Playlist is empty";
  neither call nor \<open>reset\<close> changes the object.
\<close>

theorem C9_random_member:
  "(songs pl \<noteq> [] \<longrightarrow>
      r mod size_Playlist pl < size_Playlist pl
    \<and> getNextSong r RandomPlayStrategy pl
        = (Inr (getSongs pl ! (r mod size_Playlist pl)), RandomPlayStrategy)
    \<and> getSongs pl ! (r mod size_Playlist pl) \<in> set (getSongs pl))
 \<and> (songs pl = [] \<longrightarrow>
      getNextSong r RandomPlayStrategy pl = (Inl EmptyPlaylist, RandomPlayStrategy))
 \<and> reset RandomPlayStrategy = RandomPlayStrategy"
  by (simp add: size_Playlist_def getSongs_def)

theorem C9_random_member_witness:
  "songs \<lparr>songs = main_songs\<rparr> \<noteq> []
 \<and> getNextSong 1804289383 RandomPlayStrategy \<lparr>songs = main_songs\<rparr>
     = (Inr (main_songs ! 3), RandomPlayStrategy)
 \<and> main_songs ! 3 \<in> set main_songs
 \<and> getNextSong 1804289383 RandomPlayStrategy \<lparr>songs = []\<rparr> = (Inl EmptyPlaylist, RandomPlayStrategy)"
  using C9_random_member [of "\<lparr>songs = main_songs\<rparr>" 1804289383]
    C9_random_member [of "\<lparr>songs = []\<rparr>" 1804289383]
  by (simp add: main_songs_def size_Playlist_def getSongs_def)

section \<open>Playlist\<close>

text \<open>
  Claim C5. \<open>removeSong\<close> has no exception to throw. With an index at or beyond the
  size it returns the playlist as it was, and so does the facade's
  \<open>removeSongFromPlaylist\<close>. With an index below the size, the songs before the index
  stay in place, the songs after it move down by one, and the size drops by one.
\<close>

theorem C5_removeSong_lenient:
  "(size_Playlist pl \<le> i \<longrightarrow>
      removeSong i pl = pl)
 \<and> (size_Playlist (getPlaylist st) \<le> i \<longrightarrow> removeSongFromPlaylist i st = st)
 \<and> (i < size_Playlist pl \<longrightarrow>
      getSongs (removeSong i pl) = take i (getSongs pl) @ drop (Suc i) (getSongs pl)
    \<and> size_Playlist (removeSong i pl) = size_Playlist pl - 1
    \<and> (\<forall>j < i. getSongs (removeSong i pl) ! j = getSongs pl ! j)
    \<and> (\<forall>j. i \<le> j \<and> j < size_Playlist pl - 1 \<longrightarrow>
          getSongs (removeSong i pl) ! j = getSongs pl ! Suc j))"
  by (auto simp: removeSong_def removeSongFromPlaylist_def size_Playlist_def getSongs_def getPlaylist_def nth_append min_def)

theorem C5_removeSong_lenient_witness:
  "size_Playlist \<lparr>songs = main_songs\<rparr> \<le> 4
 \<and> removeSong 4 \<lparr>songs = main_songs\<rparr> = \<lparr>songs = main_songs\<rparr>
 \<and> removeSongFromPlaylist 0 MusicPlayerFacade = MusicPlayerFacade
 \<and> 1 < size_Playlist \<lparr>songs = main_songs\<rparr>
 \<and> getSongs (removeSong 1 \<lparr>songs = main_songs\<rparr>) = [main_songs ! 0, main_songs ! 2, main_songs ! 3]"
  using C5_removeSong_lenient [of "\<lparr>songs = main_songs\<rparr>" 4 MusicPlayerFacade]
    C5_removeSong_lenient [of "\<lparr>songs = main_songs\<rparr>" 1 MusicPlayerFacade]
    C5_removeSong_lenient [of "\<lparr>songs = main_songs\<rparr>" 0 MusicPlayerFacade]
  by (simp add: main_songs_def size_Playlist_def getSongs_def getPlaylist_def MusicPlayerFacade_def)

section \<open>Engine: one call and the loop\<close>

lemma playNext_unbound:
  "playlist (engine st) = None \<or> strategy (engine st) = None \<or> device (engine st) = None \<Longrightarrow>
   playNext r st = (Inl NotConfigured, st)"
  by (auto simp: playNext_def split: option.splits)

lemma playNext_bound:
  assumes "playlist (engine st) = Some u" and "strategy (engine st) = Some ps"
    and "device (engine st) = Some dev"
    and "strategies st ps = Some s" and "devices st dev = Some d"
  shows "playNext r st =
     (case getNextSong r s (playlistManager st) of
        (Inl e, s1) \<Rightarrow> (Inl e, st\<lparr>strategies := (strategies st)(ps \<mapsto> s1)\<rparr>)
      | (Inr song, s1) \<Rightarrow>
          (Inr (), st\<lparr>strategies := (strategies st)(ps \<mapsto> s1),
                     cout := cout st @ [playSound d song]\<rparr>))"
  using assms by (simp add: playNext_def Let_def split: prod.splits sum.splits)

lemma playNext_keeps:
  "playlistManager (snd (playNext r st)) = playlistManager st"
  "deviceManager (snd (playNext r st)) = deviceManager st"
  "strategyPtr (snd (playNext r st)) = strategyPtr st"
  "engine (snd (playNext r st)) = engine st"
  "devices (snd (playNext r st)) = devices st"
  "fresh (snd (playNext r st)) = fresh st"
  by (simp_all add: playNext_def Let_def split: option.splits prod.splits sum.splits)

lemma playNext_cout_ok:
  "fst (playNext r st) = Inr u \<Longrightarrow> length (cout (snd (playNext r st))) = Suc (length (cout st))"
  by (auto simp: playNext_def Let_def split: option.splits prod.splits sum.splits)

lemma playNext_cout_failed:
  "fst (playNext r st) = Inl e \<Longrightarrow> cout (snd (playNext r st)) = cout st"
  by (auto simp: playNext_def Let_def split: option.splits prod.splits sum.splits)

lemma playMultiple_loop_step_ok:
  assumes "i < count" and "fst (playNext (rnd i) st) = Inr ()"
  shows "playMultiple_loop rnd i count st = playMultiple_loop rnd (i + 1) count (snd (playNext (rnd i) st))"
proof -
  obtain st1 where "playNext (rnd i) st = (Inr (), st1)"
    using assms(2) by (cases "playNext (rnd i) st") simp
  then show ?thesis
    using assms(1) by (subst playMultiple_loop.simps) simp
qed

lemma playMultiple_loop_step_failed:
  assumes "i < count" and "fst (playNext (rnd i) st) = Inl e"
  shows "playMultiple_loop rnd i count st = (Inl e, snd (playNext (rnd i) st))"
proof -
  obtain st1 where "playNext (rnd i) st = (Inl e, st1)"
    using assms(2) by (cases "playNext (rnd i) st") simp
  then show ?thesis
    using assms(1) by (subst playMultiple_loop.simps) simp
qed

lemma playMultiple_loop_done:
  "\<not> i < count \<Longrightarrow> playMultiple_loop rnd i count st = (Inr (), st)"
  by (subst playMultiple_loop.simps) simp

lemma playMultiple_loop_all_ok:
  "i \<le> count \<Longrightarrow>
   \<forall>k. i \<le> k \<and> k < count \<longrightarrow> fst (playNext (rnd k) (after_calls rnd k st)) = Inr () \<Longrightarrow>
   playMultiple_loop rnd i count (after_calls rnd i st) = (Inr (), after_calls rnd count st)"
proof (induction "count - i" arbitrary: i)
  case 0
  then have "i = count" by simp
  then show ?case by (simp add: playMultiple_loop_done)
next
  case (Suc n)
  then have lt: "i < count" by simp
  with Suc.prems have ok: "fst (playNext (rnd i) (after_calls rnd i st)) = Inr ()" by simp
  have "playMultiple_loop rnd (i + 1) count (after_calls rnd (Suc i) st)
        = (Inr (), after_calls rnd count st)"
    using Suc.hyps(1) [of "i + 1"] Suc.hyps(2) Suc.prems lt by simp
  then show ?case
    using playMultiple_loop_step_ok [where rnd = rnd and i = i, OF lt ok] by simp
qed

lemma playMultiple_loop_first_failure:
  "i \<le> k \<Longrightarrow> k < count \<Longrightarrow>
   \<forall>j. i \<le> j \<and> j < k \<longrightarrow> fst (playNext (rnd j) (after_calls rnd j st)) = Inr () \<Longrightarrow>
   fst (playNext (rnd k) (after_calls rnd k st)) = Inl e \<Longrightarrow>
   playMultiple_loop rnd i count (after_calls rnd i st) = (Inl e, after_calls rnd (Suc k) st)"
proof (induction "k - i" arbitrary: i)
  case 0
  then have "i = k" by simp
  then show ?case
    using playMultiple_loop_step_failed [where rnd = rnd and i = k, OF "0.prems"(2,4)] by simp
next
  case (Suc n)
  then have lt: "i < k" by simp
  then have ltc: "i < count" using Suc.prems by simp
  from lt Suc.prems have ok: "fst (playNext (rnd i) (after_calls rnd i st)) = Inr ()" by simp
  have "playMultiple_loop rnd (i + 1) count (after_calls rnd (Suc i) st)
        = (Inl e, after_calls rnd (Suc k) st)"
    using Suc.hyps(1) [of "i + 1"] Suc.hyps(2) Suc.prems lt by simp
  then show ?case
    using playMultiple_loop_step_ok [where rnd = rnd and i = i, OF ltc ok] by simp
qed

lemma cout_after_calls:
  "\<forall>j<k. fst (playNext (rnd j) (after_calls rnd j st)) = Inr () \<Longrightarrow>
   length (cout (after_calls rnd k st)) = length (cout st) + k"
  by (induction k) (simp_all add: playNext_cout_ok)

section \<open>Facade: what configure builds\<close>

lemma selectDevice_built:
  assumes "DeviceFactory_create dt st = make_unique_device d st"
  shows "selectDevice dt st =
     (Inr (), st\<lparr>devices := destroy (deviceManager st) ((devices st)(fresh st \<mapsto> d)),
                deviceManager := Some (fresh st), fresh := Suc (fresh st)\<rparr>)"
  by (simp add: selectDevice_def assms make_unique_device_def assign_device_def)

lemma selectDevice_failed:
  assumes "DeviceFactory_create dt st = (None, st)"
  shows "selectDevice dt st =
     (Inl DeviceCreationFailed,
      st\<lparr>devices := destroy (deviceManager st) (devices st), deviceManager := None\<rparr>)"
  by (simp add: selectDevice_def assms assign_device_def)

lemma setStrategy_live:
  "strategies st a = Some s \<Longrightarrow>
   setStrategy (Some a) st =
     (Inr (), st\<lparr>engine := (engine st)\<lparr>strategy := Some a\<rparr>,
               strategies := (strategies st)(a \<mapsto> reset s)\<rparr>)"
  by (simp add: setStrategy_def)

lemma destroy_other: "p \<noteq> Some a \<Longrightarrow> destroy p store a = store a"
  by (cases p) (auto simp: destroy_def)

lemma destroy_old: "destroy (Some a) store a = None"
  by (simp add: destroy_def)

lemma configure_built:
  assumes own: "owned st"
    and D: "\<And>st. DeviceFactory_create dt st = make_unique_device d st"
    and S: "\<And>st. createStrategy pst st = make_unique_strategy s st"
  shows "configure dt pst st =
     (Inr (),
      st\<lparr>deviceManager := Some (fresh st), strategyPtr := Some (Suc (fresh st)),
         engine := \<lparr>playlist = Some (), strategy = Some (Suc (fresh st)),
                    device = Some (fresh st)\<rparr>,
         devices := destroy (deviceManager st) ((devices st)(fresh st \<mapsto> d)),
         strategies := (destroy (strategyPtr st) ((strategies st)(Suc (fresh st) \<mapsto> s)))
                         (Suc (fresh st) \<mapsto> reset s),
         fresh := Suc (Suc (fresh st))\<rparr>)"
proof -
  from own have "strategyPtr st \<noteq> Some (Suc (fresh st))"
    by (auto simp: owned_def)
  then have live: "destroy (strategyPtr st) ((strategies st)(Suc (fresh st) \<mapsto> s)) (Suc (fresh st)) = Some s"
    by (simp add: destroy_other)
  show ?thesis
    by (simp add: configure_def selectDevice_built [OF D] S make_unique_strategy_def
        assign_strategyPtr_def setDevice_def getDevice_def setStrategy_def loadPlaylist_def
        Let_def live)
qed

lemma configureCustom_built:
  assumes own: "owned st"
    and D: "\<And>st. DeviceFactory_create dt st = make_unique_device d st"
  shows "configureCustom dt q st =
     (Inr (),
      st\<lparr>deviceManager := Some (fresh st), strategyPtr := Some (Suc (fresh st)),
         engine := \<lparr>playlist = Some (), strategy = Some (Suc (fresh st)),
                    device = Some (fresh st)\<rparr>,
         devices := destroy (deviceManager st) ((devices st)(fresh st \<mapsto> d)),
         strategies := (destroy (strategyPtr st)
                          ((strategies st)(Suc (fresh st) \<mapsto> CustomQueueStrategy [] 0)))
                         (Suc (fresh st) \<mapsto> CustomQueueStrategy q 0),
         fresh := Suc (Suc (fresh st))\<rparr>)"
proof -
  from own have "strategyPtr st \<noteq> Some (Suc (fresh st))"
    by (auto simp: owned_def)
  then have live: "destroy (strategyPtr st)
      ((strategies st)(Suc (fresh st) \<mapsto> CustomQueueStrategy [] 0)) (Suc (fresh st))
       = Some (CustomQueueStrategy [] 0)"
    by (simp add: destroy_other)
  show ?thesis
    by (simp add: configureCustom_def selectDevice_built [OF D] make_unique_strategy_def
        assign_strategyPtr_def setDevice_def getDevice_def setStrategy_def loadPlaylist_def
        Let_def live)
qed

lemma DeviceFactory_create_named:
  "dt \<noteq> DeviceType_unnamed \<Longrightarrow>
   \<exists>d. \<forall>st. DeviceFactory_create dt st = make_unique_device d st"
  by (cases dt) auto


lemma createStrategy_named:
  "pst \<noteq> PlayStrategyType_unnamed \<Longrightarrow>
   \<forall>st. createStrategy pst st =
     make_unique_strategy (case pst of SEQUENTIAL \<Rightarrow> SequentialPlayStrategy 0
       | RANDOM \<Rightarrow> RandomPlayStrategy | _ \<Rightarrow> CustomQueueStrategy [] 0) st"
  by (cases pst) auto

lemma configure_unnamed_device:
  "configure DeviceType_unnamed pst st =
     (Inl DeviceCreationFailed,
      st\<lparr>devices := destroy (deviceManager st) (devices st), deviceManager := None\<rparr>)"
  by (simp add: configure_def selectDevice_failed)

lemma configureCustom_unnamed_device:
  "configureCustom DeviceType_unnamed q st =
     (Inl DeviceCreationFailed,
      st\<lparr>devices := destroy (deviceManager st) (devices st), deviceManager := None\<rparr>)"
  by (simp add: configureCustom_def selectDevice_failed)

lemma configure_unnamed_strategy:
  assumes D: "\<And>st. DeviceFactory_create dt st = make_unique_device d st"
  shows "configure dt PlayStrategyType_unnamed st =
     (Inl InvalidStrategy,
      st\<lparr>devices := destroy (deviceManager st) ((devices st)(fresh st \<mapsto> d)),
         deviceManager := Some (fresh st), fresh := Suc (fresh st),
         strategies := destroy (strategyPtr st) (strategies st), strategyPtr := None\<rparr>)"
  by (simp add: configure_def selectDevice_built [OF D] assign_strategyPtr_def)

lemma configure_succeeds_iff:
  assumes "owned st"
  shows "fst (configure dt pst st) = Inr () \<longleftrightarrow>
         dt \<noteq> DeviceType_unnamed \<and> pst \<noteq> PlayStrategyType_unnamed"
proof (cases "dt = DeviceType_unnamed")
  case True
  then show ?thesis by (simp add: configure_unnamed_device)
next
  case False
  then obtain d where D: "\<And>st. DeviceFactory_create dt st = make_unique_device d st"
    using DeviceFactory_create_named by blast
  show ?thesis
  proof (cases "pst = PlayStrategyType_unnamed")
    case True
    then show ?thesis by (simp add: configure_unnamed_strategy [OF D])
  next
    case named: False
    from createStrategy_named [OF named] show ?thesis
      using False named by (simp add: configure_built [OF assms D])
  qed
qed

lemma configureCustom_succeeds_iff:
  assumes "owned st"
  shows "fst (configureCustom dt q st) = Inr () \<longleftrightarrow> dt \<noteq> DeviceType_unnamed"
proof (cases "dt = DeviceType_unnamed")
  case True
  then show ?thesis by (simp add: configureCustom_unnamed_device)
next
  case False
  then obtain d where D: "\<And>st. DeviceFactory_create dt st = make_unique_device d st"
    using DeviceFactory_create_named by blast
  show ?thesis using False by (simp add: configureCustom_built [OF assms D])
qed

lemma DeviceFactory_create_kind:
  "dt \<noteq> DeviceType_unnamed \<Longrightarrow>
   \<forall>st. DeviceFactory_create dt st =
     make_unique_device (case dt of BLUETOOTH \<Rightarrow> BluetoothSpeakerAdapter
       | WIRED \<Rightarrow> WiredSpeakerAdapter | _ \<Rightarrow> HeadphonesAdapter) st"
  by (cases dt) auto

section \<open>Invariants of the store\<close>

lemma owned_iff:
  "owned st \<longleftrightarrow>
     (\<forall>a. deviceManager st = Some a \<longrightarrow> a < fresh st) \<and>
     (\<forall>a. strategyPtr st = Some a \<longrightarrow> a < fresh st)"
  by (auto simp: owned_def split: option.splits)

lemma owned_MusicPlayerFacade: "owned MusicPlayerFacade"
  by (simp add: owned_iff MusicPlayerFacade_def)

lemma owned_addSongToPlaylist: "owned st \<Longrightarrow> owned (addSongToPlaylist song st)"
  by (simp add: owned_iff addSongToPlaylist_def)

lemma owned_removeSongFromPlaylist: "owned st \<Longrightarrow> owned (removeSongFromPlaylist i st)"
  by (simp add: owned_iff removeSongFromPlaylist_def)

lemma owned_playNext: "owned st \<Longrightarrow> owned (snd (playNext r st))"
  by (simp add: owned_iff playNext_keeps)

lemma owned_after_calls: "owned st \<Longrightarrow> owned (after_calls rnd k st)"
  by (induction k) (simp_all add: owned_playNext)

lemma playMultiple_loop_preserves:
  assumes step: "\<And>r st. P st \<Longrightarrow> P (snd (playNext r st))"
  shows "P st \<Longrightarrow> P (snd (playMultiple_loop rnd i count st))"
proof (induction rnd i count st rule: playMultiple_loop.induct)
  case (1 rnd i count st)
  show ?case
  proof (cases "i < count")
    case False
    then show ?thesis using "1.prems" by (simp add: playMultiple_loop_done)
  next
    case True
    show ?thesis
    proof (cases "fst (playNext (rnd i) st)")
      case (Inl e)
      show ?thesis
        using playMultiple_loop_step_failed [where rnd = rnd and i = i, OF True Inl]
          step [OF "1.prems"] by simp
    next
      case (Inr u)
      then have ok: "fst (playNext (rnd i) st) = Inr ()" by simp
      then have eq: "playNext (rnd i) st = (Inr (), snd (playNext (rnd i) st))"
        by (simp add: prod_eq_iff)
      have "P (snd (playMultiple_loop rnd (i + 1) count (snd (playNext (rnd i) st))))"
        by (rule "1.IH" [OF True eq [symmetric] refl step [OF "1.prems"]])
      then show ?thesis
        using playMultiple_loop_step_ok [where rnd = rnd and i = i, OF True ok] by simp
    qed
  qed
qed

lemma owned_playMultiple: "owned st \<Longrightarrow> owned (snd (playMultiple rnd count st))"
  unfolding playMultiple_def
  by (rule playMultiple_loop_preserves [where P = owned]) (rule owned_playNext)

lemma owned_configure: 
  assumes "owned st" shows "owned (snd (configure dt pst st))"
proof (cases "dt = DeviceType_unnamed")
  case True
  then show ?thesis using assms by (auto simp: configure_unnamed_device owned_iff)
next
  case False
  then obtain d where D: "\<And>st. DeviceFactory_create dt st = make_unique_device d st"
    using DeviceFactory_create_named by blast
  show ?thesis
  proof (cases "pst = PlayStrategyType_unnamed")
    case True
    then show ?thesis using assms by (auto simp: configure_unnamed_strategy [OF D] owned_iff)
  next
    case named: False
    from createStrategy_named [OF named] show ?thesis
      by (simp add: configure_built [OF assms D] owned_iff)
  qed
qed

lemma owned_configureCustom: 
  assumes "owned st" shows "owned (snd (configureCustom dt q st))"
proof (cases "dt = DeviceType_unnamed")
  case True
  then show ?thesis using assms by (auto simp: configureCustom_unnamed_device owned_iff)
next
  case False
  then obtain d where D: "\<And>st. DeviceFactory_create dt st = make_unique_device d st"
    using DeviceFactory_create_named by blast
  show ?thesis by (simp add: configureCustom_built [OF assms D] owned_iff)
qed

lemma bound_playNext: "bound st \<Longrightarrow> bound (snd (playNext r st))"
  by (auto simp: bound_def playNext_def Let_def split: option.splits prod.splits sum.splits)

lemma bound_addSongToPlaylist: "bound st \<Longrightarrow> bound (addSongToPlaylist song st)"
  by (auto simp: bound_def addSongToPlaylist_def split: option.splits)

lemma bound_removeSongFromPlaylist: "bound st \<Longrightarrow> bound (removeSongFromPlaylist i st)"
  by (auto simp: bound_def removeSongFromPlaylist_def split: option.splits)

lemma bound_configure:
  assumes "owned st" and "fst (configure dt pst st) = Inr ()"
  shows "bound (snd (configure dt pst st))"
proof -
  from assms have dt: "dt \<noteq> DeviceType_unnamed" and pst: "pst \<noteq> PlayStrategyType_unnamed"
    by (simp_all add: configure_succeeds_iff)
  from dt obtain d where D: "\<And>st. DeviceFactory_create dt st = make_unique_device d st"
    using DeviceFactory_create_named by blast
  from assms(1) have "deviceManager st \<noteq> Some (fresh st)" by (auto simp: owned_iff)
  then show ?thesis
    using createStrategy_named [OF pst]
    by (simp add: configure_built [OF assms(1) D] bound_def destroy_other)
qed

lemma bound_configureCustom:
  assumes "owned st" and "fst (configureCustom dt q st) = Inr ()"
  shows "bound (snd (configureCustom dt q st))"
proof -
  from assms have dt: "dt \<noteq> DeviceType_unnamed"
    by (simp add: configureCustom_succeeds_iff)
  from dt obtain d where D: "\<And>st. DeviceFactory_create dt st = make_unique_device d st"
    using DeviceFactory_create_named by blast
  from assms(1) have "deviceManager st \<noteq> Some (fresh st)" by (auto simp: owned_iff)
  then show ?thesis
    by (simp add: configureCustom_built [OF assms(1) D] bound_def destroy_other)
qed

lemma bound_playMultiple: "bound st \<Longrightarrow> bound (snd (playMultiple rnd count st))"
  unfolding playMultiple_def
  by (rule playMultiple_loop_preserves [where P = bound]) (rule bound_playNext)

lemma engine_playMultiple: "engine (snd (playMultiple rnd count st)) = engine st"
proof -
  have "engine (snd (playMultiple_loop rnd 0 count st)) = engine st"
    by (rule playMultiple_loop_preserves [where P = "\<lambda>s. engine s = engine st"])
      (simp_all add: playNext_keeps)
  then show ?thesis by (simp add: playMultiple_def)
qed

lemma reachable_owned: "reachable st \<Longrightarrow> owned st"
  by (induction rule: reachable.induct)
    (simp_all add: owned_MusicPlayerFacade owned_addSongToPlaylist owned_removeSongFromPlaylist
      owned_configure owned_configureCustom owned_playNext owned_playMultiple)

lemma reachable_bound:
  "reachable st \<Longrightarrow> engine st = engine MusicPlayerFacade \<or> bound st"
proof (induction rule: reachable.induct)
  case new
  show ?case by simp
next
  case (add st song)
  then show ?case
    by (auto simp: bound_addSongToPlaylist) (simp add: addSongToPlaylist_def)
next
  case (remove st i)
  then show ?case
    by (auto simp: bound_removeSongFromPlaylist) (simp add: removeSongFromPlaylist_def)
next
  case (configure st dt pst)
  then show ?case
    by (simp add: bound_configure reachable_owned configure_succeeds_iff)
next
  case (configureCustom st dt q)
  then show ?case
    by (simp add: bound_configureCustom reachable_owned configureCustom_succeeds_iff)
next
  case (playNext st r)
  then show ?case
    by (auto simp: bound_playNext playNext_keeps)
next
  case (playMultiple st rnd count)
  then show ?case
    by (auto simp: bound_playMultiple engine_playMultiple)
qed

section \<open>The example sessions, evaluated\<close>

lemma main_player_eq:
  "main_player = MusicPlayerFacade\<lparr>playlistManager := \<lparr>songs = main_songs\<rparr>\<rparr>"
  by (simp add: main_player_def main_songs_def addSongToPlaylist_def addSong_def
      MusicPlayerFacade_def)

lemma session_configured_eq:
  "session_configured =
     \<lparr>playlistManager = \<lparr>songs = main_songs\<rparr>, deviceManager = Some 0, strategyPtr = Some 1,
      engine = \<lparr>playlist = Some (), strategy = Some 1, device = Some 0\<rparr>,
      devices = [0 \<mapsto> HeadphonesAdapter], strategies = [1 \<mapsto> SequentialPlayStrategy 0],
      fresh = 2, cout = []\<rparr>"
  unfolding session_configured_def main_player_eq 
  by (simp add: configure_built [where d = HeadphonesAdapter and s = "SequentialPlayStrategy 0"]
      owned_def MusicPlayerFacade_def destroy_def)

lemma session_custom_eq:
  "session_custom =
     \<lparr>playlistManager = \<lparr>songs = main_songs\<rparr>, deviceManager = Some 0, strategyPtr = Some 1,
      engine = \<lparr>playlist = Some (), strategy = Some 1, device = Some 0\<rparr>,
      devices = [0 \<mapsto> WiredSpeakerAdapter], strategies = [1 \<mapsto> CustomQueueStrategy [1, 9, 0] 0],
      fresh = 2, cout = []\<rparr>"
  unfolding session_custom_def main_player_eq 
  by (simp add: configureCustom_built [where d = WiredSpeakerAdapter]
      owned_def MusicPlayerFacade_def destroy_def)

lemma playNext_session_configured:
  "playNext r session_configured =
     (Inr (),
      \<lparr>playlistManager = \<lparr>songs = main_songs\<rparr>, deviceManager = Some 0, strategyPtr = Some 1,
       engine = \<lparr>playlist = Some (), strategy = Some 1, device = Some 0\<rparr>,
       devices = [0 \<mapsto> HeadphonesAdapter], strategies = [1 \<mapsto> SequentialPlayStrategy 1],
       fresh = 2, cout = [playSound HeadphonesAdapter (main_songs ! 0)]\<rparr>)"
  unfolding session_configured_eq
  by (simp add: playNext_def size_Playlist_def getSongs_def main_songs_def)

lemma session_played_eq:
  "session_played =
     \<lparr>playlistManager = \<lparr>songs = main_songs\<rparr>, deviceManager = Some 0, strategyPtr = Some 1,
      engine = \<lparr>playlist = Some (), strategy = Some 1, device = Some 0\<rparr>,
      devices = [0 \<mapsto> HeadphonesAdapter], strategies = [1 \<mapsto> SequentialPlayStrategy 2],
      fresh = 2,
      cout = [playSound HeadphonesAdapter (main_songs ! 0),
              playSound HeadphonesAdapter (main_songs ! 1)]\<rparr>"
proof -
  have one: "after_calls (\<lambda>i. 0) (Suc 0) session_configured =
     \<lparr>playlistManager = \<lparr>songs = main_songs\<rparr>, deviceManager = Some 0, strategyPtr = Some 1,
       engine = \<lparr>playlist = Some (), strategy = Some 1, device = Some 0\<rparr>,
       devices = [0 \<mapsto> HeadphonesAdapter], strategies = [1 \<mapsto> SequentialPlayStrategy 1],
       fresh = 2, cout = [playSound HeadphonesAdapter (main_songs ! 0)]\<rparr>"
    by (simp add: playNext_session_configured del: playSound.simps)
  have two: "playNext 0 (after_calls (\<lambda>i. 0) (Suc 0) session_configured) =
     (Inr (),
      \<lparr>playlistManager = \<lparr>songs = main_songs\<rparr>, deviceManager = Some 0, strategyPtr = Some 1,
       engine = \<lparr>playlist = Some (), strategy = Some 1, device = Some 0\<rparr>,
       devices = [0 \<mapsto> HeadphonesAdapter], strategies = [1 \<mapsto> SequentialPlayStrategy 2],
       fresh = 2,
       cout = [playSound HeadphonesAdapter (main_songs ! 0),
               playSound HeadphonesAdapter (main_songs ! 1)]\<rparr>)"
    unfolding one
    by (simp add: playNext_def size_Playlist_def getSongs_def main_songs_def numeral_2_eq_2)
  have ok: "\<forall>k. 0 \<le> k \<and> k < 2 \<longrightarrow>
      fst (playNext ((\<lambda>i. 0) k) (after_calls (\<lambda>i. 0) k session_configured)) = Inr ()"
  proof (intro allI impI)
    fix k :: nat
    assume "0 \<le> k \<and> k < 2"
    then have "k = 0 \<or> k = Suc 0" by arith
    then show "fst (playNext ((\<lambda>i. 0) k) (after_calls (\<lambda>i. 0) k session_configured)) = Inr ()"
      using two by (auto simp: playNext_session_configured simp del: after_calls.simps(2))
  qed
  have "playMultiple (\<lambda>i. 0) 2 session_configured
      = (Inr (), after_calls (\<lambda>i. 0) 2 session_configured)"
    using playMultiple_loop_all_ok [of 0 2 "\<lambda>i. 0" session_configured, OF _ ok]
    by (simp add: playMultiple_def)
  then show ?thesis
    using two by (simp add: session_played_def numeral_2_eq_2 del: playSound.simps)
qed

lemma session_failed_eq:
  "session_failed =
     \<lparr>playlistManager = \<lparr>songs = main_songs\<rparr>, deviceManager = Some 2, strategyPtr = None,
      engine = \<lparr>playlist = Some (), strategy = Some 1, device = Some 0\<rparr>,
      devices = [2 \<mapsto> BluetoothSpeakerAdapter], strategies = Map.empty,
      fresh = 3,
      cout = [playSound HeadphonesAdapter (main_songs ! 0),
              playSound HeadphonesAdapter (main_songs ! 1)]\<rparr>"
  unfolding session_failed_def session_played_eq session_configured_eq
  by (simp add: configure_unnamed_strategy [where d = BluetoothSpeakerAdapter] destroy_def
      numeral_3_eq_3 numeral_2_eq_2 del: playSound.simps)

lemma session_played_fields:
  "owned session_played" "fresh session_played = 2"
  "deviceManager session_played = Some 0" "strategyPtr session_played = Some 1"
  "strategies session_played 1 = Some (SequentialPlayStrategy 2)"
  "devices session_played 0 = Some HeadphonesAdapter"
  "playlistManager session_played = \<lparr>songs = main_songs\<rparr>"
  "cout session_played = [playSound HeadphonesAdapter (main_songs ! 0),
                          playSound HeadphonesAdapter (main_songs ! 1)]"
  by (simp_all add: session_played_eq owned_def del: playSound.simps)

lemma reachable_sessions:
  "reachable main_player" "reachable session_configured" "reachable session_played"
proof -
  show main: "reachable main_player"
    by (simp add: main_player_def main_songs_def reachable.new reachable.add)
  then show conf: "reachable session_configured"
    unfolding session_configured_def by (rule reachable.configure) simp_all
  then show "reachable session_played"
    unfolding session_played_def by (rule reachable.playMultiple)
qed

section \<open>Playback engine\<close>

text \<open>
  Claim C6. \<open>playNext\<close> throws "AudioEngine not configured" and changes nothing when
  one of the engine's three pointers is null. That is so in a new facade, and until the
  first \<open>configure\<close>: adding and removing songs and \<open>playNext\<close> itself leave the
  engine's pointers alone. In every state that calls with kinds among the enumerators
  lead to, the engine is as in a new facade or it is bound: no pointer is null and the
  strategy and the device pointed to exist. When it is bound, \<open>playNext\<close> calls the
  strategy's \<open>getNextSong\<close> once and keeps the strategy as that call leaves it; an
  exception of the call comes out as it is, with nothing written; a song is passed to
  the device's \<open>playSound\<close>, which writes one line.
\<close>

theorem C6_playNext_configured:
  "(playlist (engine st) = None \<or> strategy (engine st) = None \<or> device (engine st) = None
      \<longrightarrow> playNext r st = (Inl NotConfigured, st))
 \<and> playNext r MusicPlayerFacade = (Inl NotConfigured, MusicPlayerFacade)
 \<and> (engine st = engine MusicPlayerFacade \<longrightarrow> playNext r st = (Inl NotConfigured, st))
 \<and> engine (addSongToPlaylist song st) = engine st
 \<and> engine (removeSongFromPlaylist i st) = engine st
 \<and> engine (snd (playNext r st)) = engine st
 \<and> (reachable st \<longrightarrow> engine st = engine MusicPlayerFacade \<or> bound st)
 \<and> (bound st \<longrightarrow>
      (\<exists>ps dev s d. playlist (engine st) = Some () \<and> strategy (engine st) = Some ps
         \<and> device (engine st) = Some dev \<and> strategies st ps = Some s
         \<and> devices st dev = Some d))
 \<and> (playlist (engine st) = Some u \<and> strategy (engine st) = Some ps
      \<and> device (engine st) = Some dev \<and> strategies st ps = Some s \<and> devices st dev = Some d
      \<longrightarrow>
      (\<forall>e s1. getNextSong r s (playlistManager st) = (Inl e, s1) \<longrightarrow>
         playNext r st = (Inl e, st\<lparr>strategies := (strategies st)(ps \<mapsto> s1)\<rparr>))
    \<and> (\<forall>song s1. getNextSong r s (playlistManager st) = (Inr song, s1) \<longrightarrow>
         playNext r st =
           (Inr (), st\<lparr>strategies := (strategies st)(ps \<mapsto> s1),
                      cout := cout st @ [playSound d song]\<rparr>)))"
proof -
  have new: "playNext r MusicPlayerFacade = (Inl NotConfigured, MusicPlayerFacade)"
    by (rule playNext_unbound) (simp add: MusicPlayerFacade_def)
  have before: "engine st = engine MusicPlayerFacade \<longrightarrow> playNext r st = (Inl NotConfigured, st)"
    by (auto intro!: playNext_unbound simp: MusicPlayerFacade_def)
  have keeps: "engine (addSongToPlaylist song st) = engine st"
    "engine (removeSongFromPlaylist i st) = engine st"
    by (simp_all add: addSongToPlaylist_def removeSongFromPlaylist_def)
  have plays: "(\<forall>e s1. getNextSong r s (playlistManager st) = (Inl e, s1) \<longrightarrow>
         playNext r st = (Inl e, st\<lparr>strategies := (strategies st)(ps \<mapsto> s1)\<rparr>))
    \<and> (\<forall>song s1. getNextSong r s (playlistManager st) = (Inr song, s1) \<longrightarrow>
         playNext r st =
           (Inr (), st\<lparr>strategies := (strategies st)(ps \<mapsto> s1),
                      cout := cout st @ [playSound d song]\<rparr>))"
    if "playlist (engine st) = Some u" "strategy (engine st) = Some ps"
      "device (engine st) = Some dev" "strategies st ps = Some s" "devices st dev = Some d"
    by (simp add: playNext_bound [OF that])
  have reach: "reachable st \<longrightarrow> engine st = engine MusicPlayerFacade \<or> bound st"
    by (simp add: reachable_bound)
  have bnd: "bound st \<longrightarrow>
      (\<exists>ps dev s d. playlist (engine st) = Some () \<and> strategy (engine st) = Some ps
         \<and> device (engine st) = Some dev \<and> strategies st ps = Some s
         \<and> devices st dev = Some d)"
    by (auto simp: bound_def split: option.splits)
  show ?thesis
    using playNext_unbound [of st r] new before keeps playNext_keeps(4) [of r st] plays
      reach bnd
    by blast
qed

theorem C6_playNext_configured_witness:
  "playNext 0 MusicPlayerFacade = (Inl NotConfigured, MusicPlayerFacade)
 \<and> reachable main_player \<and> reachable session_configured \<and> bound session_configured
 \<and> engine main_player = engine MusicPlayerFacade
 \<and> playNext 0 main_player = (Inl NotConfigured, main_player)
 \<and> strategies session_configured 1 = Some (SequentialPlayStrategy 0)
 \<and> devices session_configured 0 = Some HeadphonesAdapter
 \<and> playNext 0 session_configured =
     (Inr (), session_configured\<lparr>strategies := (strategies session_configured)
                                    (1 \<mapsto> SequentialPlayStrategy 1),
                cout := cout session_configured @ [playSound HeadphonesAdapter (main_songs ! 0)]\<rparr>)
 \<and> strategies (after_calls (\<lambda>i. 0) 1 session_custom) 1 = Some (CustomQueueStrategy [1, 9, 0] 1)
 \<and> playNext 0 (after_calls (\<lambda>i. 0) 1 session_custom) =
     (Inl IndexOutOfRange, after_calls (\<lambda>i. 0) 1 session_custom)"
proof -
  have a: "engine main_player = engine MusicPlayerFacade"
    by (simp add: main_player_eq)
  have b: "playlist (engine session_configured) = Some () \<and>
      strategy (engine session_configured) = Some 1 \<and>
      device (engine session_configured) = Some 0 \<and>
      strategies session_configured 1 = Some (SequentialPlayStrategy 0) \<and>
      devices session_configured 0 = Some HeadphonesAdapter"
    by (simp add: session_configured_eq)
  have c: "getNextSong 0 (SequentialPlayStrategy 0) (playlistManager session_configured)
      = (Inr (main_songs ! 0), SequentialPlayStrategy 1)"
    by (simp add: session_configured_eq size_Playlist_def getSongs_def main_songs_def)
  have one: "after_calls (\<lambda>i. 0) 1 session_custom =
     \<lparr>playlistManager = \<lparr>songs = main_songs\<rparr>, deviceManager = Some 0, strategyPtr = Some 1,
      engine = \<lparr>playlist = Some (), strategy = Some 1, device = Some 0\<rparr>,
      devices = [0 \<mapsto> WiredSpeakerAdapter], strategies = [1 \<mapsto> CustomQueueStrategy [1, 9, 0] 1],
      fresh = 2, cout = [playSound WiredSpeakerAdapter (main_songs ! 1)]\<rparr>"
    by (simp add: session_custom_eq playNext_def size_Playlist_def getSongs_def main_songs_def)
  have d: "playlist (engine (after_calls (\<lambda>i. 0) 1 session_custom)) = Some () \<and>
      strategy (engine (after_calls (\<lambda>i. 0) 1 session_custom)) = Some 1 \<and>
      device (engine (after_calls (\<lambda>i. 0) 1 session_custom)) = Some 0 \<and>
      strategies (after_calls (\<lambda>i. 0) 1 session_custom) 1 = Some (CustomQueueStrategy [1, 9, 0] 1) \<and>
      devices (after_calls (\<lambda>i. 0) 1 session_custom) 0 = Some WiredSpeakerAdapter"
    unfolding one by simp
  have e: "getNextSong 0 (CustomQueueStrategy [1, 9, 0] 1)
        (playlistManager (after_calls (\<lambda>i. 0) 1 session_custom))
      = (Inl IndexOutOfRange, CustomQueueStrategy [1, 9, 0] 1)"
    unfolding one by (simp add: size_Playlist_def main_songs_def)
  have bnd: "bound session_configured"
    by (simp add: session_configured_eq bound_def)
  have same: "(after_calls (\<lambda>i. 0) 1 session_custom)
      \<lparr>strategies := (strategies (after_calls (\<lambda>i. 0) 1 session_custom))
          (1 \<mapsto> CustomQueueStrategy [1, 9, 0] 1)\<rparr> = after_calls (\<lambda>i. 0) 1 session_custom"
    unfolding one by simp
  show ?thesis
    using C6_playNext_configured [of MusicPlayerFacade 0]
      C6_playNext_configured [of main_player 0]
      C6_playNext_configured [of session_configured 0 _ _ "()" 1 0 "SequentialPlayStrategy 0"
        HeadphonesAdapter]
      C6_playNext_configured [of "after_calls (\<lambda>i. 0) 1 session_custom" 0 _ _ "()" 1 0
        "CustomQueueStrategy [1, 9, 0] 1" WiredSpeakerAdapter]
      a b c d e same reachable_sessions(1,2) bnd
    by (simp del: after_calls.simps playSound.simps)
qed

text \<open>
  Claim C4. \<open>playMultiple rnd count\<close> makes the calls of \<open>playNext\<close> one after the
  other. When none of the first \<open>count\<close> calls throws, it returns normally in the
  state after exactly \<open>count\<close> calls, with \<open>count\<close> lines written. When call \<open>k\<close>
  (from 0) is the first to throw, it throws that same exception in the state right after
  that call: \<open>k\<close> lines are written and no later call is made.
\<close>

theorem C4_playMultiple_first_failure:
  "((\<forall>j<count. fst (playNext (rnd j) (after_calls rnd j st)) = Inr ()) \<longrightarrow>
      playMultiple rnd count st = (Inr (), after_calls rnd count st)
    \<and> length (cout (snd (playMultiple rnd count st))) = length (cout st) + count)
 \<and> (k < count \<and> (\<forall>j<k. fst (playNext (rnd j) (after_calls rnd j st)) = Inr ())
      \<and> fst (playNext (rnd k) (after_calls rnd k st)) = Inl e \<longrightarrow>
      playMultiple rnd count st = (Inl e, after_calls rnd (Suc k) st)
    \<and> length (cout (snd (playMultiple rnd count st))) = length (cout st) + k)"
proof (intro conjI impI)
  assume ok: "\<forall>j<count. fst (playNext (rnd j) (after_calls rnd j st)) = Inr ()"
  then show all: "playMultiple rnd count st = (Inr (), after_calls rnd count st)"
    using playMultiple_loop_all_ok [of 0 count rnd st] by (simp add: playMultiple_def)
  show "length (cout (snd (playMultiple rnd count st))) = length (cout st) + count"
    unfolding all using cout_after_calls [OF ok] by simp
next
  assume h: "k < count \<and> (\<forall>j<k. fst (playNext (rnd j) (after_calls rnd j st)) = Inr ())
      \<and> fst (playNext (rnd k) (after_calls rnd k st)) = Inl e"
  then show stop: "playMultiple rnd count st = (Inl e, after_calls rnd (Suc k) st)"
    using playMultiple_loop_first_failure [of 0 k count rnd st e] by (simp add: playMultiple_def)
  from h have "length (cout (after_calls rnd k st)) = length (cout st) + k"
    using cout_after_calls [of k rnd st] by blast
  moreover from h have "cout (after_calls rnd (Suc k) st) = cout (after_calls rnd k st)"
    by (simp add: playNext_cout_failed)
  ultimately show "length (cout (snd (playMultiple rnd count st))) = length (cout st) + k"
    unfolding stop by simp
qed

theorem C4_playMultiple_first_failure_witness:
  "playMultiple (\<lambda>i. 0) 2 session_configured = (Inr (), after_calls (\<lambda>i. 0) 2 session_configured)
 \<and> length (cout (snd (playMultiple (\<lambda>i. 0) 2 session_configured))) = 2
 \<and> fst (playNext 0 session_custom) = Inr ()
 \<and> fst (playNext 0 (after_calls (\<lambda>i. 0) 1 session_custom)) = Inl IndexOutOfRange
 \<and> playMultiple (\<lambda>i. 0) 3 session_custom = (Inl IndexOutOfRange, after_calls (\<lambda>i. 0) 2 session_custom)
 \<and> length (cout (snd (playMultiple (\<lambda>i. 0) 3 session_custom))) = 1"
proof -
  have one: "after_calls (\<lambda>i. 0) (Suc 0) session_configured =
     \<lparr>playlistManager = \<lparr>songs = main_songs\<rparr>, deviceManager = Some 0, strategyPtr = Some 1,
       engine = \<lparr>playlist = Some (), strategy = Some 1, device = Some 0\<rparr>,
       devices = [0 \<mapsto> HeadphonesAdapter], strategies = [1 \<mapsto> SequentialPlayStrategy 1],
       fresh = 2, cout = [playSound HeadphonesAdapter (main_songs ! 0)]\<rparr>"
    by (simp add: playNext_session_configured del: playSound.simps)
  have two: "fst (playNext 0 (after_calls (\<lambda>i. 0) (Suc 0) session_configured)) = Inr ()"
    unfolding one
    by (simp add: playNext_def size_Playlist_def getSongs_def main_songs_def)
  have ok: "\<forall>j<2. fst (playNext ((\<lambda>i. 0) j) (after_calls (\<lambda>i. 0) j session_configured)) = Inr ()"
  proof (intro allI impI)
    fix j :: nat
    assume "j < 2"
    then have "j = 0 \<or> j = Suc 0" by arith
    then show "fst (playNext ((\<lambda>i. 0) j) (after_calls (\<lambda>i. 0) j session_configured)) = Inr ()"
      using two by (auto simp: playNext_session_configured simp del: after_calls.simps(2))
  qed
  have c0: "fst (playNext 0 session_custom) = Inr ()"
    by (simp add: session_custom_eq playNext_def size_Playlist_def getSongs_def main_songs_def)
  have c1: "fst (playNext 0 (after_calls (\<lambda>i. 0) 1 session_custom)) = Inl IndexOutOfRange"
    by (simp add: session_custom_eq playNext_def size_Playlist_def getSongs_def main_songs_def)
  have okc: "\<forall>j<1. fst (playNext ((\<lambda>i. 0) j) (after_calls (\<lambda>i. 0) j session_custom)) = Inr ()"
    using c0 by simp
  have len0: "length (cout session_configured) = 0" "length (cout session_custom) = 0"
    by (simp_all add: session_configured_eq session_custom_eq)
  have A: "playMultiple (\<lambda>i. 0) 2 session_configured
        = (Inr (), after_calls (\<lambda>i. 0) 2 session_configured)
      \<and> length (cout (snd (playMultiple (\<lambda>i. 0) 2 session_configured)))
        = length (cout session_configured) + 2"
    using C4_playMultiple_first_failure [of 2 "\<lambda>i. 0" session_configured] ok by blast
  have "(1::nat) < 3" by simp
  then have B: "playMultiple (\<lambda>i. 0) 3 session_custom
        = (Inl IndexOutOfRange, after_calls (\<lambda>i. 0) (Suc 1) session_custom)
      \<and> length (cout (snd (playMultiple (\<lambda>i. 0) 3 session_custom)))
        = length (cout session_custom) + 1"
    using C4_playMultiple_first_failure [of 3 "\<lambda>i. 0" session_custom 1 IndexOutOfRange]
      okc c1 by blast
  note A1 = A [THEN conjunct1]
  note A2 = A [THEN conjunct2, unfolded len0 add_0]
  have two: "Suc 1 = 2" by simp
  note B1 = B [THEN conjunct1, unfolded two]
  note B2 = B [THEN conjunct2, unfolded len0 add_0]
  show ?thesis
    using A1 A2 c0 c1 B1 B2 by blast
qed

section \<open>Session controller\<close>

text \<open>
  Claim C7 does not hold as the specification words it. After
  \<open>configure HEADPHONES SEQUENTIAL\<close> and two songs, \<open>playNext\<close> works. A \<open>configure\<close>
  whose strategy kind is none of the enumerators then throws "Invalid strategy type",
  and the engine still points at the device at address 0 and the strategy at address 1,
  which are both destroyed: the next \<open>playNext\<close> goes through a dangling pointer. The order shows without any failure
  too: right after \<open>selectDevice\<close>, the first step of \<open>configure\<close>, the old device
  is gone while the engine still points at it.
\<close>

theorem C7_configure_not_atomic_counterexample:
  "owned session_played
 \<and> bound session_played
 \<and> fst (playNext 0 session_played) = Inr ()
 \<and> fst (configure BLUETOOTH PlayStrategyType_unnamed session_played) = Inl InvalidStrategy
 \<and> session_failed = snd (configure BLUETOOTH PlayStrategyType_unnamed session_played)
 \<and> engine session_failed = engine session_played
 \<and> device (engine session_failed) = Some 0
 \<and> devices session_played 0 = Some HeadphonesAdapter
 \<and> devices session_failed 0 = None
 \<and> strategy (engine session_failed) = Some 1
 \<and> strategies session_played 1 = Some (SequentialPlayStrategy 2)
 \<and> strategies session_failed 1 = None
 \<and> \<not> bound session_failed
 \<and> playNext 0 session_failed = (Inl undefined_behaviour, session_failed)
 \<and> device (engine (snd (selectDevice BLUETOOTH session_played))) = Some 0
 \<and> devices (snd (selectDevice BLUETOOTH session_played)) 0 = None"
proof -
  have "fst (configure BLUETOOTH PlayStrategyType_unnamed session_played) = Inl InvalidStrategy"
    by (simp add: configure_unnamed_strategy [where d = BluetoothSpeakerAdapter])
  moreover have "fst (playNext 0 session_played) = Inr ()"
    by (simp add: session_played_eq playNext_def size_Playlist_def getSongs_def main_songs_def)
  moreover have "playNext 0 session_failed = (Inl undefined_behaviour, session_failed)"
    by (simp add: session_failed_eq playNext_def)
  moreover have "device (engine (snd (selectDevice BLUETOOTH session_played))) = Some 0
      \<and> devices (snd (selectDevice BLUETOOTH session_played)) 0 = None"
    by (simp add: selectDevice_built [where d = BluetoothSpeakerAdapter] session_played_eq
        destroy_def)
  moreover have "owned session_played" "bound session_played" "\<not> bound session_failed"
    by (simp_all add: session_played_eq session_failed_eq owned_def bound_def)
  ultimately show ?thesis
    by (simp add: session_failed_def [symmetric]) (simp add: session_failed_eq session_played_eq)
qed

text \<open>
  Claim C7, amended. \<open>configure\<close> with a device kind and a strategy kind among the
  enumerators returns normally. Afterwards the facade owns a new device and a new
  strategy of these kinds, the strategy in its initial state, the engine points at both
  and at the playlist, and all three exist; playlist and output are as before. The old
  device is destroyed by \<open>selectDevice\<close>, and the old strategy by the assignment to
  \<open>strategyPtr\<close>, each as soon as its replacement is built and while the engine still
  points at the old one; neither exists afterwards.
\<close>

theorem C7_configure_replaces:
  assumes "owned st" and "dt \<noteq> DeviceType_unnamed" and "pst \<noteq> PlayStrategyType_unnamed"
  shows "fst (configure dt pst st) = Inr ()
       \<and> bound (snd (configure dt pst st))
       \<and> deviceManager (snd (configure dt pst st)) = Some (fresh st)
       \<and> strategyPtr (snd (configure dt pst st)) = Some (Suc (fresh st))
       \<and> engine (snd (configure dt pst st))
           = \<lparr>playlist = Some (), strategy = Some (Suc (fresh st)), device = Some (fresh st)\<rparr>
       \<and> (dt = BLUETOOTH \<longrightarrow>
            devices (snd (configure dt pst st)) (fresh st) = Some BluetoothSpeakerAdapter)
       \<and> (dt = WIRED \<longrightarrow>
            devices (snd (configure dt pst st)) (fresh st) = Some WiredSpeakerAdapter)
       \<and> (dt = HEADPHONES \<longrightarrow>
            devices (snd (configure dt pst st)) (fresh st) = Some HeadphonesAdapter)
       \<and> (pst = SEQUENTIAL \<longrightarrow>
            strategies (snd (configure dt pst st)) (Suc (fresh st))
              = Some (SequentialPlayStrategy 0))
       \<and> (pst = RANDOM \<longrightarrow>
            strategies (snd (configure dt pst st)) (Suc (fresh st)) = Some RandomPlayStrategy)
       \<and> (pst = CUSTOM_QUEUE \<longrightarrow>
            strategies (snd (configure dt pst st)) (Suc (fresh st))
              = Some (CustomQueueStrategy [] 0))
       \<and> (\<forall>a. deviceManager st = Some a \<longrightarrow>
            devices (snd (configure dt pst st)) a = None
          \<and> devices (snd (selectDevice dt st)) a = None
          \<and> engine (snd (selectDevice dt st)) = engine st)
       \<and> (\<forall>a. strategyPtr st = Some a \<longrightarrow>
            strategies (snd (configure dt pst st)) a = None
          \<and> strategies (assign_strategyPtr (fst (createStrategy pst (snd (selectDevice dt st))))
                          (snd (createStrategy pst (snd (selectDevice dt st))))) a = None
          \<and> engine (assign_strategyPtr (fst (createStrategy pst (snd (selectDevice dt st))))
                      (snd (createStrategy pst (snd (selectDevice dt st))))) = engine st)
       \<and> playlistManager (snd (configure dt pst st)) = playlistManager st
       \<and> cout (snd (configure dt pst st)) = cout st"
proof -
  let ?d = "case dt of BLUETOOTH \<Rightarrow> BluetoothSpeakerAdapter
       | WIRED \<Rightarrow> WiredSpeakerAdapter | _ \<Rightarrow> HeadphonesAdapter"
  let ?s = "case pst of SEQUENTIAL \<Rightarrow> SequentialPlayStrategy 0
       | RANDOM \<Rightarrow> RandomPlayStrategy | _ \<Rightarrow> CustomQueueStrategy [] 0"
  have D: "\<And>st. DeviceFactory_create dt st = make_unique_device ?d st"
    using DeviceFactory_create_kind [OF assms(2)] by blast
  have S: "\<And>st. createStrategy pst st = make_unique_strategy ?s st"
    using createStrategy_named [OF assms(3)] by blast
  have rs: "reset ?s = ?s" by (cases pst) simp_all
  note built = configure_built [OF assms(1) D S, unfolded rs]
  note sel = selectDevice_built [OF D]
  have ok: "fst (configure dt pst st) = Inr ()"
    by (simp add: built)
  have dm: "deviceManager st \<noteq> Some (fresh st)" and sp: "strategyPtr st \<noteq> Some (Suc (fresh st))"
    using assms(1) by (auto simp: owned_iff)
  have fields: "deviceManager (snd (configure dt pst st)) = Some (fresh st)"
    "strategyPtr (snd (configure dt pst st)) = Some (Suc (fresh st))"
    "engine (snd (configure dt pst st))
           = \<lparr>playlist = Some (), strategy = Some (Suc (fresh st)), device = Some (fresh st)\<rparr>"
    "playlistManager (snd (configure dt pst st)) = playlistManager st"
    "cout (snd (configure dt pst st)) = cout st"
    by (simp_all add: built)
  have dev: "devices (snd (configure dt pst st)) (fresh st) = Some ?d"
    using dm by (simp add: built destroy_other)
  have str: "strategies (snd (configure dt pst st)) (Suc (fresh st)) = Some ?s"
    by (simp add: built)
  have old_dev: "devices (snd (configure dt pst st)) a = None
          \<and> devices (snd (selectDevice dt st)) a = None
          \<and> engine (snd (selectDevice dt st)) = engine st"
    if "deviceManager st = Some a" for a
    by (simp add: built sel that destroy_old)
  have old_str: "strategies (snd (configure dt pst st)) a = None
          \<and> strategies (assign_strategyPtr (fst (createStrategy pst (snd (selectDevice dt st))))
                          (snd (createStrategy pst (snd (selectDevice dt st))))) a = None
          \<and> engine (assign_strategyPtr (fst (createStrategy pst (snd (selectDevice dt st))))
                      (snd (createStrategy pst (snd (selectDevice dt st))))) = engine st"
    if "strategyPtr st = Some a" for a
  proof -
    from that sp have "a \<noteq> Suc (fresh st)" by auto
    then show ?thesis
      by (simp add: built sel S make_unique_strategy_def assign_strategyPtr_def that destroy_old)
  qed
  have bnd: "bound (snd (configure dt pst st))"
    by (rule bound_configure [OF assms(1) ok])
  have kinds: "(dt = BLUETOOTH \<longrightarrow>
            devices (snd (configure dt pst st)) (fresh st) = Some BluetoothSpeakerAdapter)
       \<and> (dt = WIRED \<longrightarrow>
            devices (snd (configure dt pst st)) (fresh st) = Some WiredSpeakerAdapter)
       \<and> (dt = HEADPHONES \<longrightarrow>
            devices (snd (configure dt pst st)) (fresh st) = Some HeadphonesAdapter)
       \<and> (pst = SEQUENTIAL \<longrightarrow>
            strategies (snd (configure dt pst st)) (Suc (fresh st))
              = Some (SequentialPlayStrategy 0))
       \<and> (pst = RANDOM \<longrightarrow>
            strategies (snd (configure dt pst st)) (Suc (fresh st)) = Some RandomPlayStrategy)
       \<and> (pst = CUSTOM_QUEUE \<longrightarrow>
            strategies (snd (configure dt pst st)) (Suc (fresh st))
              = Some (CustomQueueStrategy [] 0))"
    unfolding dev str by auto
  show ?thesis
    using ok bnd fields kinds old_dev old_str by blast
qed

theorem C7_configure_replaces_witness:
  "owned session_played \<and> BLUETOOTH \<noteq> DeviceType_unnamed \<and> SEQUENTIAL \<noteq> PlayStrategyType_unnamed
 \<and> fst (configure BLUETOOTH SEQUENTIAL session_played) = Inr ()
 \<and> bound (snd (configure BLUETOOTH SEQUENTIAL session_played))
 \<and> engine (snd (configure BLUETOOTH SEQUENTIAL session_played))
     = \<lparr>playlist = Some (), strategy = Some 3, device = Some 2\<rparr>
 \<and> devices (snd (configure BLUETOOTH SEQUENTIAL session_played)) 2 = Some BluetoothSpeakerAdapter
 \<and> strategies (snd (configure BLUETOOTH SEQUENTIAL session_played)) 3
     = Some (SequentialPlayStrategy 0)
 \<and> devices (snd (configure BLUETOOTH SEQUENTIAL session_played)) 0 = None
 \<and> devices (snd (selectDevice BLUETOOTH session_played)) 0 = None
 \<and> engine (snd (selectDevice BLUETOOTH session_played)) = engine session_played
 \<and> strategies (snd (configure BLUETOOTH SEQUENTIAL session_played)) 1 = None"
proof -
  have three: "Suc 2 = 3" by simp
  note T = C7_configure_replaces [of session_played BLUETOOTH SEQUENTIAL,
      OF session_played_fields(1), unfolded session_played_fields(2) three]
  show ?thesis
    using T session_played_fields(1,3,4) by simp
qed

text \<open>
  Claim C8. \<open>setStrategy\<close> on an existing strategy stores the pointer and calls
  \<open>reset\<close> on the object. After a \<open>configure\<close> that returns normally the engine points
  at a strategy in its initial state (\<open>index = 0\<close>; an empty queue and \<open>pos = 0\<close>), and
  after \<open>configureCustom\<close> at the given queue with \<open>pos = 0\<close>. This holds from every
  state in which the owning pointers are in order, as they are in every state that
  calls with kinds among the enumerators lead to, whatever strategy was there before
  and wherever its cursor stood: after \<open>configure\<close> with \<open>SEQUENTIAL\<close> the next
  \<open>playNext\<close> plays the first song of the playlist.
\<close>

theorem C8_configure_resets_strategy:
  "(strategies st a = Some s \<longrightarrow>
      setStrategy (Some a) st =
        (Inr (), st\<lparr>engine := (engine st)\<lparr>strategy := Some a\<rparr>,
                   strategies := (strategies st)(a \<mapsto> reset s)\<rparr>))
 \<and> (owned st \<and> fst (configure dt pst st) = Inr () \<longrightarrow>
      strategy (engine (snd (configure dt pst st))) = Some (Suc (fresh st))
    \<and> (pst = SEQUENTIAL \<longrightarrow>
         strategies (snd (configure dt pst st)) (Suc (fresh st))
           = Some (SequentialPlayStrategy 0))
    \<and> (pst = RANDOM \<longrightarrow>
         strategies (snd (configure dt pst st)) (Suc (fresh st)) = Some RandomPlayStrategy)
    \<and> (pst = CUSTOM_QUEUE \<longrightarrow>
         strategies (snd (configure dt pst st)) (Suc (fresh st))
           = Some (CustomQueueStrategy [] 0)))
 \<and> (owned st \<and> fst (configureCustom dt q st) = Inr () \<longrightarrow>
      strategy (engine (snd (configureCustom dt q st))) = Some (Suc (fresh st))
    \<and> strategies (snd (configureCustom dt q st)) (Suc (fresh st))
        = Some (CustomQueueStrategy q 0))
 \<and> (reachable st \<longrightarrow> owned st)
 \<and> (owned st \<and> fst (configure dt SEQUENTIAL st) = Inr () \<and> songs (playlistManager st) \<noteq> []
      \<and> devices (snd (configure dt SEQUENTIAL st)) (fresh st) = Some d \<longrightarrow>
      fst (playNext r (snd (configure dt SEQUENTIAL st))) = Inr ()
    \<and> cout (snd (playNext r (snd (configure dt SEQUENTIAL st))))
        = cout st @ [playSound d (getSongs (playlistManager st) ! 0)])"
proof -
  have conf: "strategy (engine (snd (configure dt pst st))) = Some (Suc (fresh st))
    \<and> strategies (snd (configure dt pst st)) (Suc (fresh st))
        = Some (case pst of SEQUENTIAL \<Rightarrow> SequentialPlayStrategy 0
                 | RANDOM \<Rightarrow> RandomPlayStrategy | _ \<Rightarrow> CustomQueueStrategy [] 0)
    \<and> playlist (engine (snd (configure dt pst st))) = Some ()
    \<and> device (engine (snd (configure dt pst st))) = Some (fresh st)
    \<and> playlistManager (snd (configure dt pst st)) = playlistManager st
    \<and> cout (snd (configure dt pst st)) = cout st"
    if own: "owned st" and ok: "fst (configure dt pst st) = Inr ()" for dt pst
  proof -
    from own ok have dt: "dt \<noteq> DeviceType_unnamed" and pst: "pst \<noteq> PlayStrategyType_unnamed"
      by (simp_all add: configure_succeeds_iff)
    from dt obtain d where D: "\<And>st. DeviceFactory_create dt st = make_unique_device d st"
      using DeviceFactory_create_named by blast
    have S: "\<And>st. createStrategy pst st = make_unique_strategy
        (case pst of SEQUENTIAL \<Rightarrow> SequentialPlayStrategy 0
          | RANDOM \<Rightarrow> RandomPlayStrategy | _ \<Rightarrow> CustomQueueStrategy [] 0) st"
      using createStrategy_named [OF pst] by blast
    have rs: "reset (case pst of SEQUENTIAL \<Rightarrow> SequentialPlayStrategy 0
          | RANDOM \<Rightarrow> RandomPlayStrategy | _ \<Rightarrow> CustomQueueStrategy [] 0)
        = (case pst of SEQUENTIAL \<Rightarrow> SequentialPlayStrategy 0
          | RANDOM \<Rightarrow> RandomPlayStrategy | _ \<Rightarrow> CustomQueueStrategy [] 0)"
      by (cases pst) simp_all
    show ?thesis
      by (simp add: configure_built [OF own D S] rs)
  qed
  have cust: "strategy (engine (snd (configureCustom dt q st))) = Some (Suc (fresh st))
    \<and> strategies (snd (configureCustom dt q st)) (Suc (fresh st))
        = Some (CustomQueueStrategy q 0)"
    if own: "owned st" and ok: "fst (configureCustom dt q st) = Inr ()"
  proof -
    from own ok have dt: "dt \<noteq> DeviceType_unnamed"
      by (simp add: configureCustom_succeeds_iff)
    from dt obtain d where D: "\<And>st. DeviceFactory_create dt st = make_unique_device d st"
      using DeviceFactory_create_named by blast
    show ?thesis
      by (simp add: configureCustom_built [OF own D])
  qed
  have first: "fst (playNext r (snd (configure dt SEQUENTIAL st))) = Inr ()
    \<and> cout (snd (playNext r (snd (configure dt SEQUENTIAL st))))
        = cout st @ [playSound d (getSongs (playlistManager st) ! 0)]"
    if own: "owned st" and ok: "fst (configure dt SEQUENTIAL st) = Inr ()"
      and ne: "songs (playlistManager st) \<noteq> []"
      and dev: "devices (snd (configure dt SEQUENTIAL st)) (fresh st) = Some d"
  proof -
    note c = conf [OF own ok]
    have "playNext r (snd (configure dt SEQUENTIAL st)) =
        (case getNextSong r (SequentialPlayStrategy 0)
                (playlistManager (snd (configure dt SEQUENTIAL st))) of
           (Inl e, s1) \<Rightarrow> (Inl e, (snd (configure dt SEQUENTIAL st))
               \<lparr>strategies := (strategies (snd (configure dt SEQUENTIAL st)))(Suc (fresh st) \<mapsto> s1)\<rparr>)
         | (Inr song, s1) \<Rightarrow>
             (Inr (), (snd (configure dt SEQUENTIAL st))
               \<lparr>strategies := (strategies (snd (configure dt SEQUENTIAL st)))(Suc (fresh st) \<mapsto> s1),
                 cout := cout (snd (configure dt SEQUENTIAL st)) @ [playSound d song]\<rparr>))"
      by (rule playNext_bound [where u = "()" and dev = "fresh st"]) (simp_all add: c dev)
    then show ?thesis
      using ne by (simp add: c size_Playlist_def)
  qed
  have "strategies st a = Some s \<longrightarrow>
      setStrategy (Some a) st =
        (Inr (), st\<lparr>engine := (engine st)\<lparr>strategy := Some a\<rparr>,
                   strategies := (strategies st)(a \<mapsto> reset s)\<rparr>)"
    by (simp add: setStrategy_live)
  moreover have "owned st \<and> fst (configure dt pst st) = Inr () \<longrightarrow>
      strategy (engine (snd (configure dt pst st))) = Some (Suc (fresh st))
    \<and> (pst = SEQUENTIAL \<longrightarrow>
         strategies (snd (configure dt pst st)) (Suc (fresh st))
           = Some (SequentialPlayStrategy 0))
    \<and> (pst = RANDOM \<longrightarrow>
         strategies (snd (configure dt pst st)) (Suc (fresh st)) = Some RandomPlayStrategy)
    \<and> (pst = CUSTOM_QUEUE \<longrightarrow>
         strategies (snd (configure dt pst st)) (Suc (fresh st))
           = Some (CustomQueueStrategy [] 0))"
    using conf [of dt pst] by auto
  moreover have "reachable st \<longrightarrow> owned st"
    by (simp add: reachable_owned)
  ultimately show ?thesis
    using cust first by blast
qed

theorem C8_configure_resets_strategy_witness:
  "reachable session_played
 \<and> strategies session_played 1 = Some (SequentialPlayStrategy 2)
 \<and> setStrategy (Some 1) session_played =
     (Inr (), session_played\<lparr>engine := (engine session_played)\<lparr>strategy := Some 1\<rparr>,
                strategies := (strategies session_played)(1 \<mapsto> SequentialPlayStrategy 0)\<rparr>)
 \<and> owned session_configured
 \<and> owned session_played
 \<and> fst (configure BLUETOOTH SEQUENTIAL session_played) = Inr ()
 \<and> strategy (engine (snd (configure BLUETOOTH SEQUENTIAL session_played))) = Some 3
 \<and> strategies (snd (configure BLUETOOTH SEQUENTIAL session_played)) 3
     = Some (SequentialPlayStrategy 0)
 \<and> fst (configureCustom WIRED [1, 0, 3, 2] session_played) = Inr ()
 \<and> strategies (snd (configureCustom WIRED [1, 0, 3, 2] session_played)) 3
     = Some (CustomQueueStrategy [1, 0, 3, 2] 0)
 \<and> songs (playlistManager session_played) \<noteq> []
 \<and> devices (snd (configure BLUETOOTH SEQUENTIAL session_played)) 2 = Some BluetoothSpeakerAdapter
 \<and> cout (snd (playNext 0 (snd (configure BLUETOOTH SEQUENTIAL session_played))))
     = [playSound HeadphonesAdapter (main_songs ! 0),
        playSound HeadphonesAdapter (main_songs ! 1),
        playSound BluetoothSpeakerAdapter (main_songs ! 0)]"
proof -
  have three: "Suc 2 = 3" by simp
  have own: "owned session_configured"
    by (simp add: session_configured_eq owned_def)
  have ok: "fst (configure BLUETOOTH SEQUENTIAL session_played) = Inr ()"
    by (simp add: configure_succeeds_iff session_played_fields(1))
  have okc: "fst (configureCustom WIRED [1, 0, 3, 2] session_played) = Inr ()"
    by (simp add: configureCustom_succeeds_iff session_played_fields(1))
  have dev: "devices (snd (configure BLUETOOTH SEQUENTIAL session_played)) 2
      = Some BluetoothSpeakerAdapter"
    by (simp add: configure_built [where d = BluetoothSpeakerAdapter
          and s = "SequentialPlayStrategy 0"] session_played_fields destroy_def)
  have ne: "songs (playlistManager session_played) \<noteq> []"
    by (simp add: session_played_fields main_songs_def)
  note T = C8_configure_resets_strategy [where st = session_played and dt = BLUETOOTH
      and pst = SEQUENTIAL and d = BluetoothSpeakerAdapter and r = 0 and a = 1
      and s = "SequentialPlayStrategy 2",
      unfolded session_played_fields(2) three]
  note U = C8_configure_resets_strategy [where st = session_played and dt = WIRED
      and q = "[1, 0, 3, 2]", unfolded session_played_fields(2) three]
  note V = C8_configure_resets_strategy [where st = session_played]
  from V reachable_sessions(3) have played: "owned session_played" by blast
  show ?thesis
    using T U ok okc dev ne own played reachable_sessions(3) session_played_fields(3-)
    by (simp add: getSongs_def del: playSound.simps)
qed

end
